theory Spec2Isabelle
  imports Complex_Main "HOL-Library.Multiset"
begin

section \<open>Failures\<close>

text \<open>
  Floating-point numbers are idealised as real numbers: rounding, overflow and NaN inputs
  are outside the model. What a computation can do besides returning a real number is a
  value of type \<open>failure\<close>:
  \<^item> \<open>ValueError\<close>: the Python exception (a reduction of an empty numpy array,
    \<open>list.index\<close> of an absent element, mismatched arguments of \<open>griddata\<close>);
  \<^item> \<open>IndexError\<close>, \<open>AttributeError\<close>: the Python exceptions;
  \<^item> \<open>NonFinite\<close>: the float computation leaves the finite numbers (a division by
    zero, the logarithm of a number that is not positive), so that its result is
    \<open>inf\<close>, \<open>-inf\<close> or \<open>nan\<close>; the model does not follow such a value further.
  A computation that may fail returns \<open>failure + 'a\<close>, with \<open>Inl\<close> for the failure.
\<close>

datatype failure = ValueError | IndexError | AttributeError | NonFinite

definition bind_err :: "failure + 'a \<Rightarrow> ('a \<Rightarrow> failure + 'b) \<Rightarrow> failure + 'b" where
  "bind_err m f = (case m of Inl e \<Rightarrow> Inl e | Inr v \<Rightarrow> f v)"

text \<open>\<open>try: m  except ValueError: h\<close>; any other failure passes through.\<close>

definition except_ValueError :: "failure + 'a \<Rightarrow> (failure + 'a) \<Rightarrow> failure + 'a" where
  "except_ValueError m h = (case m of Inl ValueError \<Rightarrow> h | Inl e \<Rightarrow> Inl e | Inr v \<Rightarrow> Inr v)"

text \<open>Division and logarithm of floats, with their non-finite results made explicit.\<close>

definition np_divide :: "real \<Rightarrow> real \<Rightarrow> failure + real" where
  "np_divide a b = (if b = 0 then Inl NonFinite else Inr (a / b))"

definition np_log :: "real \<Rightarrow> failure + real" where
  "np_log a = (if a \<le> 0 then Inl NonFinite else Inr (ln a))"

text \<open>\<open>xs[i]\<close> for a non-negative index.\<close>

definition py_nth :: "'a list \<Rightarrow> nat \<Rightarrow> failure + 'a" where
  "py_nth xs i = (if i < length xs then Inr (xs ! i) else Inl IndexError)"

text \<open>Reading an attribute that may never have been set.\<close>

definition get_attr :: "'a option \<Rightarrow> failure + 'a" where
  "get_attr a = (case a of None \<Rightarrow> Inl AttributeError | Some v \<Rightarrow> Inr v)"

section \<open>The luminosity fit\<close>

text \<open>
  \<open>luminosity_fit(mass)\<close>: mass in solar masses, result in solar luminosities.
  \<open>numpy.power\<close> is only reached for a positive mass, where it is \<open>powr\<close>.
\<close>

definition luminosity_fit :: "real \<Rightarrow> real" where
  "luminosity_fit mass =
     (if 0.12 < mass \<and> mass < 0.24 then 1.70294 * 10 ^ 16 * mass powr 42.557
      else if 0.24 < mass \<and> mass < 0.56 then 9.11137 / 10 ^ 9 * mass powr 3.8845
      else if 0.56 < mass \<and> mass < 0.70 then 1.10021 / 10 ^ 6 * mass powr 12.237
      else if 0.70 < mass \<and> mass < 0.91 then 2.38690 / 10 ^ 4 * mass powr 27.199
      else if 0.91 < mass \<and> mass < 1.37 then 1.02477 / 10 ^ 4 * mass powr 18.465
      else if 1.37 < mass \<and> mass < 2.07 then 9.66362 / 10 ^ 4 * mass powr 11.410
      else if 2.07 < mass \<and> mass < 3.72 then 6.49335 / 10 ^ 2 * mass powr 5.6147
      else if 3.72 < mass \<and> mass < 10.0 then 6.99075 / 10 * mass powr 3.8058
      else if 10.0 < mass \<and> mass < 20.2 then 9.73664 * mass powr 2.6620
      else if 20.2 < mass then 1.31175 * 10 ^ 2 * mass powr 1.7974
      else 0)"

text \<open>
  The segments of the fit as a table, for comparison with the function:
  (lower end, upper end, coefficient, exponent), every interval open, the upper end
  \<open>None\<close> for an interval that is unbounded above.
\<close>

definition power_law_segments :: "(real \<times> real option \<times> real \<times> real) list" where
  "power_law_segments =
     [(0.12, Some 0.24, 1.70294 * 10 ^ 16, 42.557),
      (0.24, Some 0.56, 9.11137 / 10 ^ 9, 3.8845),
      (0.56, Some 0.70, 1.10021 / 10 ^ 6, 12.237),
      (0.70, Some 0.91, 2.38690 / 10 ^ 4, 27.199),
      (0.91, Some 1.37, 1.02477 / 10 ^ 4, 18.465),
      (1.37, Some 2.07, 9.66362 / 10 ^ 4, 11.410),
      (2.07, Some 3.72, 6.49335 / 10 ^ 2, 5.6147),
      (3.72, Some 10.0, 6.99075 / 10, 3.8058),
      (10.0, Some 20.2, 9.73664, 2.6620),
      (20.2, None, 1.31175 * 10 ^ 2, 1.7974)]"

definition in_segment :: "real \<Rightarrow> real \<times> real option \<times> real \<times> real \<Rightarrow> bool" where
  "in_segment mass s =
     (case s of (lo, hi, a, b) \<Rightarrow>
        lo < mass \<and> (case hi of None \<Rightarrow> True | Some h \<Rightarrow> mass < h))"

definition segment_boundaries :: "real list" where
  "segment_boundaries = [0.12, 0.24, 0.56, 0.70, 0.91, 1.37, 2.07, 3.72, 10.0, 20.2]"

section \<open>The grid indexer: \<open>find_indices\<close>\<close>

text \<open>\<open>a.max()\<close> and \<open>a.min()\<close> of a numpy array.\<close>

fun np_max :: "'a::linorder list \<Rightarrow> failure + 'a" where
  "np_max [] = Inl ValueError"
| "np_max (x # xs) = Inr (fold max xs x)"

fun np_min :: "'a::linorder list \<Rightarrow> failure + 'a" where
  "np_min [] = Inl ValueError"
| "np_min (x # xs) = Inr (fold min xs x)"

text \<open>\<open>numpy.where(column == v)[0][0]\<close>: the first position holding \<open>v\<close>.\<close>

fun first_where :: "'a list \<Rightarrow> 'a \<Rightarrow> failure + nat" where
  "first_where [] v = Inl IndexError"
| "first_where (x # xs) v =
     (if x = v then Inr 0
      else case first_where xs v of Inl e \<Rightarrow> Inl e | Inr k \<Rightarrow> Inr (Suc k))"

text \<open>The two local variables of \<open>find_indices\<close>, each with its \<open>try ... except\<close>.\<close>

definition value_below :: "'a::linorder list \<Rightarrow> 'a \<Rightarrow> failure + 'a" where
  "value_below column val =
     except_ValueError (np_max (filter (\<lambda>x. x < val) column)) (np_min column)"

definition value_above :: "'a::linorder list \<Rightarrow> 'a \<Rightarrow> failure + 'a" where
  "value_above column val =
     except_ValueError (np_min (filter (\<lambda>x. val < x) column)) (np_max column)"

definition find_indices :: "'a::linorder list \<Rightarrow> 'a \<Rightarrow> failure + nat \<times> nat" where
  "find_indices column val =
     bind_err (value_below column val) (\<lambda>vb.
     bind_err (first_where column vb) (\<lambda>index_i.
     bind_err (value_above column val) (\<lambda>va.
     bind_err (first_where column va) (\<lambda>index_j.
       Inr (index_i, index_j)))))"

section \<open>The disk radius enclosing a mass\<close>

text \<open>
  \<open>radius_containing_mass(star, mass)\<close>, on the star's disk radius (AU) and disk mass
  (Jupiter masses) and the mass (Jupiter masses):
  \<open>disk_characteristic_radius * numpy.log(1 / (1 - mass / total_disk_mass))\<close>.
\<close>

definition radius_containing_mass :: "real \<Rightarrow> real \<Rightarrow> real \<Rightarrow> failure + real" where
  "radius_containing_mass disk_characteristic_radius total_disk_mass mass =
     bind_err (np_divide mass total_disk_mass) (\<lambda>q.
     bind_err (np_divide 1 (1 - q)) (\<lambda>r.
     bind_err (np_log r) (\<lambda>l.
       Inr (disk_characteristic_radius * l))))"

section \<open>The FRIED grid and the mass-loss estimate\<close>

text \<open>
  A row of \<open>friedgrid.dat\<close>: stellar mass, FUV flux, disk mass, a column the program
  skips, disk radius, and the decimal logarithm of the mass-loss rate.
\<close>

record grid_row =
  row_stellar_mass :: real
  row_FUV :: real
  row_disk_mass :: real
  row_skipped :: real
  row_disk_radius :: real
  row_log10Mdot :: real

type_synonym point = "real \<times> real \<times> real \<times> real"

text \<open>\<open>FRIED_grid = grid[:, [0, 1, 2, 4]]\<close> and the columns taken from it.\<close>

definition FRIED_grid :: "grid_row list \<Rightarrow> point list" where
  "FRIED_grid grid =
     map (\<lambda>r. (row_stellar_mass r, row_FUV r, row_disk_mass r, row_disk_radius r)) grid"

definition grid_log10Mdot :: "grid_row list \<Rightarrow> real list" where
  "grid_log10Mdot grid = map row_log10Mdot grid"

definition grid_stellar_masses :: "grid_row list \<Rightarrow> real list" where
  "grid_stellar_masses grid = map (\<lambda>(a, b, c, d). a) (FRIED_grid grid)"

definition grid_FUV :: "grid_row list \<Rightarrow> real list" where
  "grid_FUV grid = map (\<lambda>(a, b, c, d). b) (FRIED_grid grid)"

definition grid_disk_mass :: "grid_row list \<Rightarrow> real list" where
  "grid_disk_mass grid = map (\<lambda>(a, b, c, d). c) (FRIED_grid grid)"

definition grid_disk_radius :: "grid_row list \<Rightarrow> real list" where
  "grid_disk_radius grid = map (\<lambda>(a, b, c, d). d) (FRIED_grid grid)"

text \<open>
  The eight indices \<open>indices_list\<close>: two calls of \<open>find_indices\<close> per coordinate of the
  query point \<open>xi\<close>.
\<close>

definition indices_list :: "grid_row list \<Rightarrow> point \<Rightarrow> failure + nat list" where
  "indices_list grid xi =
     (case xi of (m, f, dm, dr) \<Rightarrow>
        bind_err (find_indices (grid_stellar_masses grid) m) (\<lambda>(stellar_mass_i, stellar_mass_j).
        bind_err (find_indices (grid_FUV grid) f) (\<lambda>(FUV_i, FUV_j).
        bind_err (find_indices (grid_disk_mass grid) dm) (\<lambda>(disk_mass_i, disk_mass_j).
        bind_err (find_indices (grid_disk_radius grid) dr) (\<lambda>(disk_radius_i, disk_radius_j).
          Inr [stellar_mass_i, stellar_mass_j, FUV_i, FUV_j,
               disk_mass_i, disk_mass_j, disk_radius_i, disk_radius_j])))))"

text \<open>\<open>subgrid[k] = FRIED_grid[indices_list[k]]\<close>, for the eight positions.\<close>

fun subgrid_rows :: "point list \<Rightarrow> nat list \<Rightarrow> failure + point list" where
  "subgrid_rows fried [] = Inr []"
| "subgrid_rows fried (i # is) =
     bind_err (py_nth fried i) (\<lambda>p.
     bind_err (subgrid_rows fried is) (\<lambda>ps. Inr (p # ps)))"

text \<open>\<open>list.index(x)\<close>: the first position of \<open>x\<close>, ValueError when there is none.\<close>

fun py_index :: "'a list \<Rightarrow> 'a \<Rightarrow> failure + nat" where
  "py_index [] v = Inl ValueError"
| "py_index (x # xs) v =
     (if x = v then Inr 0
      else case py_index xs v of Inl e \<Rightarrow> Inl e | Inr k \<Rightarrow> Inr (Suc k))"

text \<open>
  The loop
  \<^verbatim>\<open>for x in indices_list: Mdot_values[indices_list.index(x)] = grid_log10Mdot[x]\<close>
  over the remaining elements \<open>xs\<close>. The right-hand side is evaluated first.
\<close>

fun fill_Mdot_values :: "nat list \<Rightarrow> real list \<Rightarrow> nat list \<Rightarrow> real list \<Rightarrow> failure + real list" where
  "fill_Mdot_values idx log10Mdot [] Mdot_values = Inr Mdot_values"
| "fill_Mdot_values idx log10Mdot (x # xs) Mdot_values =
     bind_err (py_nth log10Mdot x) (\<lambda>v.
     bind_err (py_index idx x) (\<lambda>k.
       if k < length Mdot_values
       then fill_Mdot_values idx log10Mdot xs (Mdot_values[k := v])
       else Inl IndexError))"

text \<open>
  The sub-grid of a query point: the rows at its eight indices. The program assigns two
  rows after each call of \<open>find_indices\<close>; the result is the same.
\<close>

definition subgrid :: "grid_row list \<Rightarrow> point \<Rightarrow> failure + point list" where
  "subgrid grid xi = bind_err (indices_list grid xi) (subgrid_rows (FRIED_grid grid))"

text \<open>
  \<open>Mdot_values = numpy.ndarray(shape=(8, ), dtype=float)\<close> allocates eight floats and
  does not initialise them: \<open>uninit k\<close> is what the memory holds at position \<open>k\<close>. The
  loop then runs over the eight indices.
\<close>

definition Mdot_values :: "grid_row list \<Rightarrow> (nat \<Rightarrow> real) \<Rightarrow> point \<Rightarrow> failure + real list" where
  "Mdot_values grid uninit xi =
     bind_err (indices_list grid xi) (\<lambda>idx.
       fill_Mdot_values idx (grid_log10Mdot grid) idx (map uninit [0..<8]))"

text \<open>
  \<open>scipy.interpolate.griddata(points, values, xi, method="nearest")\<close> is library code.
  Its documented contract is modelled: the result is the value at a data point that is
  nearest to \<open>xi\<close> in Euclidean distance. Which of several data points at the same
  smallest distance the library takes is not documented; that rule is the parameter
  \<open>tie\<close>, which receives the positions of the nearest data points in ascending order.
\<close>

definition sq_dist :: "point \<Rightarrow> point \<Rightarrow> real" where
  "sq_dist p q =
     (case p of (p0, p1, p2, p3) \<Rightarrow> case q of (q0, q1, q2, q3) \<Rightarrow>
        (p0 - q0)\<^sup>2 + (p1 - q1)\<^sup>2 + (p2 - q2)\<^sup>2 + (p3 - q3)\<^sup>2)"

definition euclid :: "point \<Rightarrow> point \<Rightarrow> real" where
  "euclid p q = sqrt (sq_dist p q)"

definition nearest_indices :: "point list \<Rightarrow> point \<Rightarrow> nat list" where
  "nearest_indices points xi =
     filter (\<lambda>k. list_all (\<lambda>p. euclid (points ! k) xi \<le> euclid p xi) points)
       [0..<length points]"

definition griddata_nearest ::
    "(nat list \<Rightarrow> nat) \<Rightarrow> point list \<Rightarrow> real list \<Rightarrow> point \<Rightarrow> failure + real" where
  "griddata_nearest tie points vals xi =
     (if points = [] \<or> length vals \<noteq> length points then Inl ValueError
      else py_nth vals (tie (nearest_indices points xi)))"

text \<open>A tie rule is admissible when it picks one of the positions it is given.\<close>

definition tie_ok :: "(nat list \<Rightarrow> nat) \<Rightarrow> bool" where
  "tie_ok tie = (\<forall>ks. ks \<noteq> [] \<longrightarrow> tie ks \<in> set ks)"

text \<open>
  The estimate \<open>photoevap_Mdot\<close> for a query point (lines 331 to 365 of the program):
  the indices, the sub-grid, the vector of values, and the nearest-neighbour lookup.
\<close>

definition photoevap_Mdot ::
    "(nat list \<Rightarrow> nat) \<Rightarrow> grid_row list \<Rightarrow> (nat \<Rightarrow> real) \<Rightarrow> point \<Rightarrow> failure + real" where
  "photoevap_Mdot tie grid uninit xi =
     bind_err (subgrid grid xi) (\<lambda>points.
     bind_err (Mdot_values grid uninit xi) (\<lambda>vals.
       griddata_nearest tie points vals xi))"

text \<open>
  The bracketing values of the four columns are carried by one row each: the condition
  under which the order of the rows does not matter.
\<close>

definition carried_once :: "real list \<Rightarrow> failure + real \<Rightarrow> bool" where
  "carried_once column b = (case b of Inl e \<Rightarrow> True | Inr v \<Rightarrow> count_list column v = 1)"

definition brackets_unique :: "grid_row list \<Rightarrow> point \<Rightarrow> bool" where
  "brackets_unique grid xi =
     (case xi of (m, f, dm, dr) \<Rightarrow>
        carried_once (grid_stellar_masses grid) (value_below (grid_stellar_masses grid) m)
      \<and> carried_once (grid_stellar_masses grid) (value_above (grid_stellar_masses grid) m)
      \<and> carried_once (grid_FUV grid) (value_below (grid_FUV grid) f)
      \<and> carried_once (grid_FUV grid) (value_above (grid_FUV grid) f)
      \<and> carried_once (grid_disk_mass grid) (value_below (grid_disk_mass grid) dm)
      \<and> carried_once (grid_disk_mass grid) (value_above (grid_disk_mass grid) dm)
      \<and> carried_once (grid_disk_radius grid) (value_below (grid_disk_radius grid) dr)
      \<and> carried_once (grid_disk_radius grid) (value_above (grid_disk_radius grid) dr))"

section \<open>The stars and the driver\<close>

text \<open>
  A star: its mass in solar masses, its position in centimetres, and the disk attributes,
  \<open>None\<close> while the attribute has not been assigned (disk mass in solar masses, disk
  radius in AU). The fields \<open>pos_x\<close>, \<open>pos_y\<close>, \<open>pos_z\<close> are the attributes \<open>x\<close>, \<open>y\<close>,
  \<open>z\<close> of the program.
\<close>

record star =
  stellar_mass :: real
  pos_x :: real
  pos_y :: real
  pos_z :: real
  disk_mass :: "real option"
  disk_radius :: "real option"

text \<open>
  The unit conversions of the framework that the program relies on, as positive factors:
  a solar luminosity in erg/s and a solar mass in Jupiter masses.
\<close>

record unit_factors =
  LSun_in_erg_s :: real
  MSun_in_MJupiter :: real

definition bright_stars :: "star list \<Rightarrow> star list" where
  "bright_stars stars = filter (\<lambda>s. 1.9 < stellar_mass s) stars"

definition small_stars :: "star list \<Rightarrow> star list" where
  "small_stars stars = filter (\<lambda>s. stellar_mass s < 1.9) stars"

text \<open>
  The four assignments of lines 237 to 241, each through a subset of \<open>stars\<close>, in the
  program's order.
\<close>

definition assign_disks :: "star list \<Rightarrow> star list" where
  "assign_disks stars =
     (let s1 = map (\<lambda>s. if 1.9 < stellar_mass s then s\<lparr>disk_mass := Some 0\<rparr> else s) stars;
          s2 = map (\<lambda>s. if stellar_mass s < 1.9
                         then s\<lparr>disk_mass := Some (0.1 * stellar_mass s)\<rparr> else s) s1;
          s3 = map (\<lambda>s. if stellar_mass s < 1.9
                         then s\<lparr>disk_radius := Some (100 * stellar_mass s powr 0.5)\<rparr> else s) s2;
          s4 = map (\<lambda>s. if 1.9 < stellar_mass s then s\<lparr>disk_radius := Some 0\<rparr> else s) s3
      in s4)"

definition distance :: "star \<Rightarrow> star \<Rightarrow> real" where
  "distance star1 star2 =
     sqrt ((pos_x star2 - pos_x star1)\<^sup>2 + (pos_y star2 - pos_y star1)\<^sup>2
           + (pos_z star2 - pos_z star1)\<^sup>2)"

definition radiation_at_distance :: "real \<Rightarrow> real \<Rightarrow> failure + real" where
  "radiation_at_distance rad R = np_divide rad (4 * pi * R\<^sup>2)"

text \<open>The query point \<open>xi\<close> of a bright star \<open>s\<close> and a small star \<open>ss\<close>.\<close>

definition query_point :: "unit_factors \<Rightarrow> star \<Rightarrow> star \<Rightarrow> failure + point" where
  "query_point u s ss =
     (let lum = luminosity_fit (stellar_mass s);
          dist = distance s ss
      in bind_err (radiation_at_distance (lum * LSun_in_erg_s u) dist) (\<lambda>radiation_ss.
         let radiation_ss_G0 = radiation_ss / (1.6 / 10 ^ 3)
         in bind_err (get_attr (disk_mass ss)) (\<lambda>dm.
            bind_err (get_attr (disk_radius ss)) (\<lambda>dr.
              Inr (stellar_mass ss, radiation_ss_G0, dm * MSun_in_MJupiter u, dr)))))"

text \<open>
  The estimate \<open>photoevap_Mdot\<close> for the pair, and \<open>total_photoevap_mass_loss\<close>, the
  mass lost in a step of \<open>dt\<close> years. Each pair allocates its own \<open>Mdot_values\<close>, so the
  uninitialised contents depend on the pair.
\<close>

definition photoevap_Mdot_pair ::
    "unit_factors \<Rightarrow> (nat list \<Rightarrow> nat) \<Rightarrow> grid_row list \<Rightarrow> (star \<Rightarrow> star \<Rightarrow> nat \<Rightarrow> real)
       \<Rightarrow> star \<Rightarrow> star \<Rightarrow> failure + real" where
  "photoevap_Mdot_pair u tie grid uninit s ss =
     bind_err (query_point u s ss) (photoevap_Mdot tie grid (uninit s ss))"

definition total_photoevap_mass_loss ::
    "unit_factors \<Rightarrow> (nat list \<Rightarrow> nat) \<Rightarrow> grid_row list \<Rightarrow> (star \<Rightarrow> star \<Rightarrow> nat \<Rightarrow> real)
       \<Rightarrow> real \<Rightarrow> star \<Rightarrow> star \<Rightarrow> failure + real" where
  "total_photoevap_mass_loss u tie grid uninit dt s ss =
     bind_err (photoevap_Mdot_pair u tie grid uninit s ss) (\<lambda>m. Inr (10 powr m * dt))"

text \<open>The amount a pair adds to the accumulator, once the pair's computation returned.\<close>

definition increment :: "failure + real \<Rightarrow> real" where
  "increment r = (case r of Inl e \<Rightarrow> 0 | Inr d \<Rightarrow> d)"

text \<open>
  The inner loop \<open>for ss in small_stars\<close> with its counter \<open>z\<close>, and the outer loop
  \<open>for s in bright_stars\<close>, which starts \<open>z\<close> at 0 for every bright star.
\<close>

fun small_loop :: "(star \<Rightarrow> failure + real) \<Rightarrow> star list \<Rightarrow> nat \<Rightarrow> real list \<Rightarrow> failure + real list" where
  "small_loop loss [] z acc = Inr acc"
| "small_loop loss (ss # rest) z acc =
     bind_err (loss ss) (\<lambda>d.
       if z < length acc then small_loop loss rest (Suc z) (acc[z := acc ! z + d])
       else Inl IndexError)"

fun bright_loop ::
    "(star \<Rightarrow> star \<Rightarrow> failure + real) \<Rightarrow> star list \<Rightarrow> star list \<Rightarrow> real list \<Rightarrow> failure + real list" where
  "bright_loop loss [] smalls acc = Inr acc"
| "bright_loop loss (s # rest) smalls acc =
     bind_err (small_loop (loss s) smalls 0 acc) (bright_loop loss rest smalls)"

text \<open>
  The state of the time loop: the time and the step (in years), the stars as the
  framework holds them, and the accumulator. The fields \<open>sim_time\<close>, \<open>sim_dt\<close> and
  \<open>sim_stars\<close> are the variables \<open>time\<close>, \<open>dt\<close> and \<open>stars\<close> of the program.
\<close>

record sim_state =
  sim_time :: real
  sim_dt :: real
  sim_stars :: "star list"
  time_total_mass_loss :: "real list"

text \<open>
  What the environment supplies in one iteration: the contents of the uninitialised
  arrays, and the positions the gravity code hands back through its channel.
\<close>

record environment =
  env_uninit :: "star \<Rightarrow> star \<Rightarrow> nat \<Rightarrow> real"
  env_position :: "nat \<Rightarrow> real \<times> real \<times> real"

definition move_stars :: "(nat \<Rightarrow> real \<times> real \<times> real) \<Rightarrow> star list \<Rightarrow> star list" where
  "move_stars pos stars =
     map (\<lambda>(i, s). case pos i of (px, py, pz) \<Rightarrow> s\<lparr>pos_x := px, pos_y := py, pos_z := pz\<rparr>)
       (enumerate 0 stars)"

text \<open>The state before the loop (lines 229 to 290), for a first step \<open>dt0\<close>.\<close>

definition initial_state :: "star list \<Rightarrow> real \<Rightarrow> sim_state" where
  "initial_state stars0 dt0 =
     (let stars = assign_disks stars0
      in \<lparr>sim_time = 0, sim_dt = dt0, sim_stars = stars,
          time_total_mass_loss = replicate (length (small_stars stars)) 0\<rparr>)"

text \<open>The body of \<open>while time < t_end\<close>, entered with \<open>time < t_end\<close>.\<close>

definition loop_body ::
    "unit_factors \<Rightarrow> (nat list \<Rightarrow> nat) \<Rightarrow> grid_row list \<Rightarrow> real \<Rightarrow> environment
       \<Rightarrow> sim_state \<Rightarrow> failure + sim_state" where
  "loop_body u tie grid t_end env st =
     (let dt = min (sim_dt st) (t_end - sim_time st)
      in bind_err
           (bright_loop (total_photoevap_mass_loss u tie grid (env_uninit env) dt)
              (bright_stars (sim_stars st)) (small_stars (sim_stars st))
              (time_total_mass_loss st))
           (\<lambda>acc. Inr \<lparr>sim_time = sim_time st + dt, sim_dt = dt,
                        sim_stars = move_stars (env_position env) (sim_stars st),
                        time_total_mass_loss = acc\<rparr>))"

text \<open>The states the loop passes through, at the head of the loop.\<close>

inductive reachable ::
    "unit_factors \<Rightarrow> (nat list \<Rightarrow> nat) \<Rightarrow> grid_row list \<Rightarrow> real \<Rightarrow> star list \<Rightarrow> real
       \<Rightarrow> sim_state \<Rightarrow> bool"
  for u tie grid t_end stars0 dt0 where
    start: "reachable u tie grid t_end stars0 dt0 (initial_state stars0 dt0)"
  | iterate: "reachable u tie grid t_end stars0 dt0 st \<Longrightarrow> sim_time st < t_end \<Longrightarrow>
       loop_body u tie grid t_end env st = Inr st' \<Longrightarrow>
       reachable u tie grid t_end stars0 dt0 st'"

code_pred reachable .

text \<open>The row at position \<open>i\<close> of the grid stands at no other position.\<close>

definition only_at :: "'a list \<Rightarrow> nat \<Rightarrow> bool" where
  "only_at grid i = (i < length grid \<and> (\<forall>n<length grid. grid ! n = grid ! i \<longrightarrow> n = i))"

section \<open>Example inputs\<close>

text \<open>
  A grid of nine rows and the same rows in another order, for the query point
  \<open>(5, 5, 5, 5)\<close>. Each of the first eight rows brackets one coordinate of the query;
  the ninth row shares the stellar mass 4.9 of the first one.
\<close>

definition row :: "real \<Rightarrow> real \<Rightarrow> real \<Rightarrow> real \<Rightarrow> real \<Rightarrow> grid_row" where
  "row m f dm dr mdot =
     \<lparr>row_stellar_mass = m, row_FUV = f, row_disk_mass = dm, row_skipped = 0,
      row_disk_radius = dr, row_log10Mdot = mdot\<rparr>"

definition example_grid :: "grid_row list" where
  "example_grid =
     [row 4.9 5 5 5 (- 1), row 5.5 5 5 5 (- 2), row 5 3 5 5 (- 3), row 5 7 5 5 (- 4),
      row 5 5 3 5 (- 5), row 5 5 7 5 (- 6), row 5 5 5 3 (- 7), row 5 5 5 7 (- 8),
      row 4.9 100 5 5 (- 9)]"

definition example_grid_permuted :: "grid_row list" where
  "example_grid_permuted =
     [row 4.9 100 5 5 (- 9), row 5.5 5 5 5 (- 2), row 5 3 5 5 (- 3), row 5 7 5 5 (- 4),
      row 5 5 3 5 (- 5), row 5 5 7 5 (- 6), row 5 5 5 3 (- 7), row 5 5 5 7 (- 8),
      row 4.9 5 5 5 (- 1)]"

text \<open>A grid of two rows without a repeated value in any column, and its reversal.\<close>

definition two_row_grid :: "grid_row list" where
  "two_row_grid = [row 1 10 1 10 (- 8), row 2 100 10 100 (- 5)]"

definition two_row_grid_reversed :: "grid_row list" where
  "two_row_grid_reversed = [row 2 100 10 100 (- 5), row 1 10 1 10 (- 8)]"

text \<open>
  A cluster of one bright star of 2.07 solar masses and one small star of one solar
  mass, one centimetre apart, with the unit factors of the framework, and an environment
  that supplies zeros for the uninitialised arrays and leaves the stars where they are.
\<close>

definition example_units :: unit_factors where
  "example_units = \<lparr>LSun_in_erg_s = 3.839 * 10 ^ 33, MSun_in_MJupiter = 1047.57\<rparr>"

definition example_stars :: "star list" where
  "example_stars =
     [\<lparr>stellar_mass = 2.07, pos_x = 0, pos_y = 0, pos_z = 0, disk_mass = None, disk_radius = None\<rparr>,
      \<lparr>stellar_mass = 1, pos_x = 1, pos_y = 0, pos_z = 0, disk_mass = None, disk_radius = None\<rparr>]"

definition example_environment :: environment where
  "example_environment =
     \<lparr>env_uninit = (\<lambda>s ss k. 0),
      env_position = (\<lambda>i. if i = 0 then (0, 0, 0) else (1, 0, 0))\<rparr>"

text \<open>A star of exactly 1.9 solar masses.\<close>

definition example_star_1_9 :: star where
  "example_star_1_9 =
     \<lparr>stellar_mass = 1.9, pos_x = 2, pos_y = 0, pos_z = 0, disk_mass = None, disk_radius = None\<rparr>"

text \<open>The query point of the two example stars, and the sub-grid it selects.\<close>

definition example_query :: point where
  "example_query = (1, 0, 104.757, 100)"

definition example_points :: "point list" where
  "example_points =
     [(1, 10, 1, 10), (2, 100, 10, 100), (1, 10, 1, 10), (1, 10, 1, 10),
      (2, 100, 10, 100), (2, 100, 10, 100), (1, 10, 1, 10), (2, 100, 10, 100)]"

text \<open>The two example stars with their disks assigned.\<close>

definition example_bright :: star where
  "example_bright =
     \<lparr>stellar_mass = 2.07, pos_x = 0, pos_y = 0, pos_z = 0,
      disk_mass = Some 0, disk_radius = Some 0\<rparr>"

definition example_small :: star where
  "example_small =
     \<lparr>stellar_mass = 1, pos_x = 1, pos_y = 0, pos_z = 0,
      disk_mass = Some 0.1, disk_radius = Some 100\<rparr>"

section \<open>Properties of the grid indexer\<close>

lemma np_max_Max: "xs \<noteq> [] \<Longrightarrow> np_max xs = Inr (Max (set xs))"
  by (cases xs) (simp_all add: Max.set_eq_fold [symmetric])

lemma np_min_Min: "xs \<noteq> [] \<Longrightarrow> np_min xs = Inr (Min (set xs))"
  by (cases xs) (simp_all add: Min.set_eq_fold [symmetric])

lemma first_where_member:
  "v \<in> set xs \<Longrightarrow>
     \<exists>k. first_where xs v = Inr k \<and> k < length xs \<and> xs ! k = v \<and> (\<forall>m<k. xs ! m \<noteq> v)"
proof (induction xs)
  case Nil
  then show ?case by simp
next
  case (Cons x xs)
  show ?case
  proof (cases "x = v")
    case True
    then show ?thesis by simp
  next
    case False
    with Cons.prems have "v \<in> set xs" by simp
    from Cons.IH [OF this] obtain k where k: "first_where xs v = Inr k" "k < length xs"
      "xs ! k = v" "\<forall>m<k. xs ! m \<noteq> v" by blast
    have "\<forall>m<Suc k. (x # xs) ! m \<noteq> v"
    proof (intro allI impI)
      fix m assume "m < Suc k"
      then show "(x # xs) ! m \<noteq> v" using False k(4) by (cases m) simp_all
    qed
    with False k show ?thesis by simp
  qed
qed

text \<open>The value chosen below the query, and the one chosen above it.\<close>

lemma value_below_cases:
  "column \<noteq> [] \<Longrightarrow>
     value_below column val =
       Inr (if \<exists>x\<in>set column. x < val then Max {x \<in> set column. x < val} else Min (set column))"
proof (cases "filter (\<lambda>x. x < val) column = []")
  case True
  assume "column \<noteq> []"
  moreover from True have "\<not> (\<exists>x\<in>set column. x < val)" by (simp add: filter_empty_conv)
  ultimately show ?thesis using True by (simp add: value_below_def value_above_def except_ValueError_def np_min_Min)
next
  case False
  then have "\<exists>x\<in>set column. x < val" by (simp add: filter_empty_conv)
  moreover have "set (filter (\<lambda>x. x < val) column) = {x \<in> set column. x < val}" by simp
  ultimately show ?thesis using False by (simp add: value_below_def value_above_def except_ValueError_def np_max_Max)
qed

lemma value_above_cases:
  "column \<noteq> [] \<Longrightarrow>
     value_above column val =
       Inr (if \<exists>x\<in>set column. val < x then Min {x \<in> set column. val < x} else Max (set column))"
proof (cases "filter (\<lambda>x. val < x) column = []")
  case True
  assume "column \<noteq> []"
  moreover from True have "\<not> (\<exists>x\<in>set column. val < x)" by (simp add: filter_empty_conv)
  ultimately show ?thesis using True by (simp add: value_below_def value_above_def except_ValueError_def np_max_Max)
next
  case False
  then have "\<exists>x\<in>set column. val < x" by (simp add: filter_empty_conv)
  moreover have "set (filter (\<lambda>x. val < x) column) = {x \<in> set column. val < x}" by simp
  ultimately show ?thesis using False by (simp add: value_below_def value_above_def except_ValueError_def np_min_Min)
qed

lemma value_below_in_column:
  "column \<noteq> [] \<Longrightarrow>
     (if \<exists>x\<in>set column. x < val then Max {x \<in> set column. x < val} else Min (set column))
       \<in> set column"
proof (cases "\<exists>x\<in>set column. x < val")
  case True
  then have "{x \<in> set column. x < val} \<noteq> {}" by blast
  moreover have "finite {x \<in> set column. x < val}" by simp
  ultimately have "Max {x \<in> set column. x < val} \<in> {x \<in> set column. x < val}" by (rule Max_in [rotated])
  with True show ?thesis by simp
next
  case False
  assume "column \<noteq> []"
  with False show ?thesis by simp
qed

lemma value_above_in_column:
  "column \<noteq> [] \<Longrightarrow>
     (if \<exists>x\<in>set column. val < x then Min {x \<in> set column. val < x} else Max (set column))
       \<in> set column"
proof (cases "\<exists>x\<in>set column. val < x")
  case True
  then have "{x \<in> set column. val < x} \<noteq> {}" by blast
  moreover have "finite {x \<in> set column. val < x}" by simp
  ultimately have "Min {x \<in> set column. val < x} \<in> {x \<in> set column. val < x}" by (rule Min_in [rotated])
  with True show ?thesis by simp
next
  case False
  assume "column \<noteq> []"
  with False show ?thesis by simp
qed

text \<open>The result of \<open>find_indices\<close> on a non-empty column, in closed form.\<close>

lemma find_indices_nonempty:
  assumes ne: "column \<noteq> []"
  shows "\<exists>i j. find_indices column val = Inr (i, j)
    \<and> i < length column \<and> j < length column
    \<and> column ! i =
        (if \<exists>x\<in>set column. x < val then Max {x \<in> set column. x < val} else Min (set column))
    \<and> column ! j =
        (if \<exists>x\<in>set column. val < x then Min {x \<in> set column. val < x} else Max (set column))
    \<and> (\<forall>k<i. column ! k \<noteq> column ! i) \<and> (\<forall>k<j. column ! k \<noteq> column ! j)"
proof -
  let ?b = "if \<exists>x\<in>set column. x < val then Max {x \<in> set column. x < val} else Min (set column)"
  let ?a = "if \<exists>x\<in>set column. val < x then Min {x \<in> set column. val < x} else Max (set column)"
  from first_where_member [OF value_below_in_column [OF ne, of val]]
  obtain i where i: "first_where column ?b = Inr i" "i < length column" "column ! i = ?b"
    "\<forall>m<i. column ! m \<noteq> ?b" by blast
  from first_where_member [OF value_above_in_column [OF ne, of val]]
  obtain j where j: "first_where column ?a = Inr j" "j < length column" "column ! j = ?a"
    "\<forall>m<j. column ! m \<noteq> ?a" by blast
  have "find_indices column val = Inr (i, j)"
    unfolding find_indices_def value_below_cases [OF ne] value_above_cases [OF ne]
    by (simp add: bind_err_def i(1) j(1))
  moreover have "\<forall>k<i. column ! k \<noteq> column ! i" using i(3,4) by simp
  moreover have "\<forall>k<j. column ! k \<noteq> column ! j" using j(3,4) by simp
  ultimately show ?thesis using i(2,3) j(2,3) by blast
qed

text \<open>
  C2. On a non-empty column \<open>find_indices\<close> returns a pair \<open>(i, j)\<close> of valid positions.
  If some element is strictly below the query, \<open>column[i]\<close> is the largest such element,
  otherwise \<open>column[i]\<close> is the minimum of the column; if some element is strictly above
  the query, \<open>column[j]\<close> is the smallest such element, otherwise \<open>column[j]\<close> is the
  maximum of the column. Each index is the first position holding its value. For a query
  strictly between the minimum and the maximum, \<open>column[i] < val < column[j]\<close>, with
  \<open>column[i]\<close> the largest element below the query and \<open>column[j]\<close> the smallest above.
\<close>

theorem find_indices_brackets:
  assumes ne: "column \<noteq> []"
  shows "\<exists>i j. find_indices column val = Inr (i, j)
    \<and> i < length column \<and> j < length column
    \<and> ((\<exists>x\<in>set column. x < val) \<longrightarrow>
          column ! i < val \<and> (\<forall>x\<in>set column. x < val \<longrightarrow> x \<le> column ! i))
    \<and> (\<not> (\<exists>x\<in>set column. x < val) \<longrightarrow> (\<forall>x\<in>set column. column ! i \<le> x))
    \<and> ((\<exists>x\<in>set column. val < x) \<longrightarrow>
          val < column ! j \<and> (\<forall>x\<in>set column. val < x \<longrightarrow> column ! j \<le> x))
    \<and> (\<not> (\<exists>x\<in>set column. val < x) \<longrightarrow> (\<forall>x\<in>set column. x \<le> column ! j))
    \<and> (\<forall>k<i. column ! k \<noteq> column ! i) \<and> (\<forall>k<j. column ! k \<noteq> column ! j)
    \<and> (Min (set column) < val \<and> val < Max (set column) \<longrightarrow>
          column ! i < val \<and> val < column ! j
          \<and> (\<forall>x\<in>set column. x < val \<longrightarrow> x \<le> column ! i)
          \<and> (\<forall>x\<in>set column. val < x \<longrightarrow> column ! j \<le> x))"
proof -
  let ?B = "{x \<in> set column. x < val}" and ?A = "{x \<in> set column. val < x}"
  from find_indices_nonempty [OF ne, of val] obtain i j where
    r: "find_indices column val = Inr (i, j)" "i < length column" "j < length column"
    and ci: "column ! i = (if \<exists>x\<in>set column. x < val then Max ?B else Min (set column))"
    and cj: "column ! j = (if \<exists>x\<in>set column. val < x then Min ?A else Max (set column))"
    and fi: "\<forall>k<i. column ! k \<noteq> column ! i" and fj: "\<forall>k<j. column ! k \<noteq> column ! j"
    by blast
  have fin: "finite ?B" "finite ?A" by simp_all
  have b1: "column ! i < val \<and> (\<forall>x\<in>set column. x < val \<longrightarrow> x \<le> column ! i)"
    if ex: "\<exists>x\<in>set column. x < val"
  proof -
    from ex have "?B \<noteq> {}" by blast
    from Max_in [OF fin(1) this] have "Max ?B < val" by simp
    moreover have "\<forall>x\<in>set column. x < val \<longrightarrow> x \<le> Max ?B"
      using fin(1) by (simp add: Max_ge)
    ultimately show ?thesis using ci ex by simp
  qed
  have b2: "\<forall>x\<in>set column. column ! i \<le> x" if "\<not> (\<exists>x\<in>set column. x < val)"
    using that ci by simp
  have a1: "val < column ! j \<and> (\<forall>x\<in>set column. val < x \<longrightarrow> column ! j \<le> x)"
    if ex: "\<exists>x\<in>set column. val < x"
  proof -
    from ex have "?A \<noteq> {}" by blast
    from Min_in [OF fin(2) this] have "val < Min ?A" by simp
    moreover have "\<forall>x\<in>set column. val < x \<longrightarrow> Min ?A \<le> x"
      using fin(2) by (simp add: Min_le)
    ultimately show ?thesis using cj ex by simp
  qed
  have a2: "\<forall>x\<in>set column. x \<le> column ! j" if "\<not> (\<exists>x\<in>set column. val < x)"
    using that cj by simp
  have mid: "column ! i < val \<and> val < column ! j
      \<and> (\<forall>x\<in>set column. x < val \<longrightarrow> x \<le> column ! i)
      \<and> (\<forall>x\<in>set column. val < x \<longrightarrow> column ! j \<le> x)"
    if m: "Min (set column) < val \<and> val < Max (set column)"
  proof -
    have "Min (set column) \<in> set column" "Max (set column) \<in> set column"
      using ne by simp_all
    with m have "\<exists>x\<in>set column. x < val" "\<exists>x\<in>set column. val < x" by blast+
    with b1 a1 show ?thesis by blast
  qed
  have c1: "(\<exists>x\<in>set column. x < val) \<longrightarrow>
      column ! i < val \<and> (\<forall>x\<in>set column. x < val \<longrightarrow> x \<le> column ! i)"
    using b1 by blast
  have c2: "\<not> (\<exists>x\<in>set column. x < val) \<longrightarrow> (\<forall>x\<in>set column. column ! i \<le> x)"
    using b2 by blast
  have c3: "(\<exists>x\<in>set column. val < x) \<longrightarrow>
      val < column ! j \<and> (\<forall>x\<in>set column. val < x \<longrightarrow> column ! j \<le> x)"
    using a1 by blast
  have c4: "\<not> (\<exists>x\<in>set column. val < x) \<longrightarrow> (\<forall>x\<in>set column. x \<le> column ! j)"
    using a2 by blast
  have c5: "Min (set column) < val \<and> val < Max (set column) \<longrightarrow>
      column ! i < val \<and> val < column ! j
      \<and> (\<forall>x\<in>set column. x < val \<longrightarrow> x \<le> column ! i)
      \<and> (\<forall>x\<in>set column. val < x \<longrightarrow> column ! j \<le> x)"
    using mid by blast
  from r c1 c2 c3 c4 fi fj c5 show ?thesis
    apply -
    apply (rule exI [of _ i], rule exI [of _ j])
    apply (intro conjI)
             apply assumption+
    done
qed

text \<open>
  The theorem at the column \<open>[3, 1, 5, 1, 5, 3]\<close> and the query \<open>2\<close>: the lower bracket is
  the first \<open>1\<close> (position 1) and the upper bracket is the first \<open>3\<close> (position 0).
\<close>

theorem find_indices_brackets_witness:
  "[3, 1, 5, 1, 5, 3 :: real] \<noteq> []
   \<and> find_indices [3, 1, 5, 1, 5, 3 :: real] 2 = Inr (1, 0)
   \<and> (\<exists>i j. find_indices [3, 1, 5, 1, 5, 3 :: real] 2 = Inr (i, j)
         \<and> [3, 1, 5, 1, 5, 3 :: real] ! i < 2 \<and> 2 < [3, 1, 5, 1, 5, 3 :: real] ! j)"
proof -
  let ?c = "[3, 1, 5, 1, 5, 3 :: real]"
  have ne: "?c \<noteq> []" by simp
  have ev: "find_indices ?c 2 = Inr (1, 0)"
    by (simp add: find_indices_def value_below_def value_above_def bind_err_def
        except_ValueError_def)
  have m: "Min (set ?c) < 2 \<and> 2 < Max (set ?c)" by simp
  from find_indices_brackets [OF ne, of 2] m obtain i j where
    "find_indices ?c 2 = Inr (i, j)" "?c ! i < 2 \<and> 2 < ?c ! j" by blast
  with ne ev show ?thesis by blast
qed

text \<open>
  C7. On a column with exactly one element, \<open>find_indices\<close> returns index 0 for both
  brackets and fails in no way, whether the query is below, equal to or above the element.
\<close>

theorem find_indices_single_row: "find_indices [x] val = Inr (0, 0)"
  by (simp add: find_indices_def value_below_def value_above_def bind_err_def
      except_ValueError_def)

text \<open>
  C9. On an empty column \<open>find_indices\<close> raises ValueError: the reduction of the (empty)
  selection raises, and the fallback in the handler reduces the empty column itself and
  raises again, for the lower bracket as for the upper one. The call returns a pair of
  indices exactly when the column is not empty.
\<close>

theorem find_indices_empty_raises:
  "find_indices ([] :: 'a::linorder list) val = Inl ValueError
   \<and> np_max (filter (\<lambda>x. x < val) ([] :: 'a list)) = Inl ValueError
   \<and> np_min ([] :: 'a list) = Inl ValueError
   \<and> value_below ([] :: 'a list) val = Inl ValueError
   \<and> np_min (filter (\<lambda>x. val < x) ([] :: 'a list)) = Inl ValueError
   \<and> np_max ([] :: 'a list) = Inl ValueError
   \<and> value_above ([] :: 'a list) val = Inl ValueError
   \<and> ((\<exists>p. find_indices column val = Inr p) = (column \<noteq> []))"
proof -
  have e: "find_indices ([] :: 'a list) val = Inl ValueError"
    by (simp add: find_indices_def value_below_def bind_err_def except_ValueError_def)
  have "(\<exists>p. find_indices column val = Inr p) = (column \<noteq> [])"
  proof (cases "column = []")
    case True
    then show ?thesis using e by simp
  next
    case False
    from find_indices_nonempty [OF this, of val] show ?thesis using False by blast
  qed
  with e show ?thesis
    by (simp add: value_below_def value_above_def except_ValueError_def)
qed

section \<open>Properties of the luminosity fit\<close>

lemma find_segment_None:
  "(find (in_segment m) power_law_segments = None) =
     (\<not> (0.12 < m \<and> m < 0.24) \<and> \<not> (0.24 < m \<and> m < 0.56) \<and> \<not> (0.56 < m \<and> m < 0.70)
      \<and> \<not> (0.70 < m \<and> m < 0.91) \<and> \<not> (0.91 < m \<and> m < 1.37) \<and> \<not> (1.37 < m \<and> m < 2.07)
      \<and> \<not> (2.07 < m \<and> m < 3.72) \<and> \<not> (3.72 < m \<and> m < 10) \<and> \<not> (10 < m \<and> m < 20.2)
      \<and> \<not> 20.2 < m)"
  by (simp add: find_None_iff power_law_segments_def in_segment_def)

lemma outside_segments_boundary:
  fixes m :: real
  assumes "\<not> (0.12 < m \<and> m < 0.24)" "\<not> (0.24 < m \<and> m < 0.56)" "\<not> (0.56 < m \<and> m < 0.70)"
    "\<not> (0.70 < m \<and> m < 0.91)" "\<not> (0.91 < m \<and> m < 1.37)" "\<not> (1.37 < m \<and> m < 2.07)"
    "\<not> (2.07 < m \<and> m < 3.72)" "\<not> (3.72 < m \<and> m < 10)" "\<not> (10 < m \<and> m < 20.2)"
    "\<not> 20.2 < m"
  shows "m \<le> 0.12 \<or> m \<in> set segment_boundaries"
proof -
  have a: "m \<le> 10 \<or> m = 20.2" using assms(9,10) by linarith
  have b: "m \<le> 3.72 \<or> m = 10 \<or> m = 20.2" using assms(8) a by linarith
  have c: "m \<le> 2.07 \<or> m = 3.72 \<or> m = 10 \<or> m = 20.2" using assms(7) b by linarith
  have d: "m \<le> 1.37 \<or> m = 2.07 \<or> m = 3.72 \<or> m = 10 \<or> m = 20.2"
    using assms(6) c by linarith
  have e: "m \<le> 0.91 \<or> m = 1.37 \<or> m = 2.07 \<or> m = 3.72 \<or> m = 10 \<or> m = 20.2"
    using assms(5) d by linarith
  have f: "m \<le> 0.70 \<or> m = 0.91 \<or> m = 1.37 \<or> m = 2.07 \<or> m = 3.72 \<or> m = 10 \<or> m = 20.2"
    using assms(4) e by linarith
  have g: "m \<le> 0.56 \<or> m = 0.70 \<or> m = 0.91 \<or> m = 1.37 \<or> m = 2.07 \<or> m = 3.72 \<or> m = 10
      \<or> m = 20.2"
    using assms(3) f by linarith
  have h: "m \<le> 0.24 \<or> m = 0.56 \<or> m = 0.70 \<or> m = 0.91 \<or> m = 1.37 \<or> m = 2.07 \<or> m = 3.72
      \<or> m = 10 \<or> m = 20.2"
    using assms(2) g by linarith
  have i: "m \<le> 0.12 \<or> m = 0.24 \<or> m = 0.56 \<or> m = 0.70 \<or> m = 0.91 \<or> m = 1.37 \<or> m = 2.07
      \<or> m = 3.72 \<or> m = 10 \<or> m = 20.2"
    using assms(1) h by linarith
  then show ?thesis by (auto simp add: segment_boundaries_def)
qed

lemma boundary_outside_segments:
  assumes "m \<le> 0.12 \<or> m \<in> set segment_boundaries"
  shows "find (in_segment m) power_law_segments = None"
proof -
  from assms have "m \<le> 0.12 \<or> m = 0.24 \<or> m = 0.56 \<or> m = 0.70 \<or> m = 0.91 \<or> m = 1.37
      \<or> m = 2.07 \<or> m = 3.72 \<or> m = 10 \<or> m = 20.2"
    by (auto simp add: segment_boundaries_def)
  then show ?thesis
    unfolding find_segment_None by (elim disjE) simp_all
qed

lemma segment_positive:
  assumes "find (in_segment m) power_law_segments = Some (lo, hi, a, b)"
  shows "0 < a \<and> 0 < m"
proof -
  from assms obtain i where i: "i < length power_law_segments"
    "in_segment m (power_law_segments ! i)" "(lo, hi, a, b) = power_law_segments ! i"
    unfolding find_Some_iff by blast
  then have "(lo, hi, a, b) \<in> set power_law_segments" "in_segment m (lo, hi, a, b)"
    by simp_all
  moreover have "\<forall>s\<in>set power_law_segments. 0 < fst (snd (snd s)) \<and> 0 < fst s"
    by (simp add: power_law_segments_def)
  ultimately have "0 < a" "0 < lo" "lo < m" by (auto simp add: in_segment_def)
  then show ?thesis by simp
qed

lemma luminosity_fit_table:
  "luminosity_fit m =
     (case find (in_segment m) power_law_segments of
        None \<Rightarrow> 0 | Some (lo, hi, a, b) \<Rightarrow> a * m powr b)"
  by (simp add: power_law_segments_def in_segment_def luminosity_fit_def)

text \<open>
  C4, counterexample. The mass 25 lies above 20.2, the upper end of the ninth bounded
  interval, and outside all nine bounded intervals; its luminosity is the tenth power
  law and is not zero.
\<close>

theorem luminosity_fit_above_last_bound:
  "(20.2 :: real) < 25
   \<and> list_all (\<lambda>s. \<not> in_segment 25 s) (butlast power_law_segments)
   \<and> length (butlast power_law_segments) = 9
   \<and> luminosity_fit 25 = 1.31175 * 10 ^ 2 * 25 powr 1.7974
   \<and> luminosity_fit 25 \<noteq> 0"
  by (simp add: luminosity_fit_def power_law_segments_def in_segment_def)

text \<open>
  C4, amended. The fit has ten pairwise disjoint open segments, nine bounded intervals
  from 0.12 to 20.2 and the unbounded one above 20.2. On a segment the luminosity is the
  segment's power law, which is positive. The luminosity is zero exactly outside all
  segments, that is for a mass of at most 0.12 and on the boundaries 0.24, 0.56, 0.70,
  0.91, 1.37, 2.07, 3.72, 10 and 20.2; no mass above 20.2 is mapped to zero.
\<close>

theorem luminosity_fit_ten_segments:
  "length power_law_segments = 10
   \<and> length (filter (in_segment m) power_law_segments) \<le> 1
   \<and> luminosity_fit m =
        (case find (in_segment m) power_law_segments of
           None \<Rightarrow> 0 | Some (lo, hi, a, b) \<Rightarrow> a * m powr b)
   \<and> ((luminosity_fit m = 0) = (find (in_segment m) power_law_segments = None))
   \<and> ((luminosity_fit m = 0) = (m \<le> 0.12 \<or> m \<in> set segment_boundaries))"
proof -
  have 1: "length power_law_segments = 10" by (simp add: power_law_segments_def)
  have 2: "length (filter (in_segment m) power_law_segments) \<le> 1"
    by (simp add: power_law_segments_def in_segment_def)
  have 4: "(luminosity_fit m = 0) = (find (in_segment m) power_law_segments = None)"
  proof (cases "find (in_segment m) power_law_segments")
    case None
    then show ?thesis by (simp add: luminosity_fit_table)
  next
    case (Some s)
    obtain lo hi a b where s: "s = (lo, hi, a, b)" by (cases s) auto
    from segment_positive [OF Some [unfolded s]] have "a \<noteq> 0" "m \<noteq> 0" by simp_all
    then show ?thesis using Some s by (simp add: luminosity_fit_table)
  qed
  have 5: "(find (in_segment m) power_law_segments = None)
      = (m \<le> 0.12 \<or> m \<in> set segment_boundaries)"
  proof
    assume "find (in_segment m) power_law_segments = None"
    then show "m \<le> 0.12 \<or> m \<in> set segment_boundaries"
      unfolding find_segment_None by (intro outside_segments_boundary) simp_all
  next
    assume "m \<le> 0.12 \<or> m \<in> set segment_boundaries"
    then show "find (in_segment m) power_law_segments = None"
      by (rule boundary_outside_segments)
  qed
  from 1 2 luminosity_fit_table [of m] 4 5 show ?thesis by simp
qed

text \<open>The amended statement at the boundary 0.24 and at the masses 0.1 and 25.\<close>

theorem luminosity_fit_ten_segments_witness:
  "luminosity_fit 0.24 = 0 \<and> luminosity_fit 0.1 = 0 \<and> luminosity_fit 25 \<noteq> 0"
proof -
  have "(0.24 :: real) \<le> 0.12 \<or> (0.24 :: real) \<in> set segment_boundaries"
    "(0.1 :: real) \<le> 0.12 \<or> (0.1 :: real) \<in> set segment_boundaries"
    "\<not> ((25 :: real) \<le> 0.12 \<or> (25 :: real) \<in> set segment_boundaries)"
    by (simp_all add: segment_boundaries_def)
  with luminosity_fit_ten_segments [of "0.24"] luminosity_fit_ten_segments [of "0.1"]
    luminosity_fit_ten_segments [of 25]
  show ?thesis by blast
qed

section \<open>Properties of the enclosing radius\<close>

text \<open>
  C6. For a positive characteristic radius and a positive total disk mass,
  \<open>radius_containing_mass\<close> returns \<open>R * ln (1 / (1 - m / M))\<close> when \<open>0 \<le> m < M\<close>, and
  its result is not finite when \<open>m \<ge> M\<close>.
\<close>

theorem radius_containing_mass_formula:
  assumes "0 < R" and "0 < M"
  shows "(0 \<le> m \<and> m < M \<longrightarrow>
            radius_containing_mass R M m = Inr (R * ln (1 / (1 - m / M))))
       \<and> (M \<le> m \<longrightarrow> radius_containing_mass R M m = Inl NonFinite)"
proof (intro conjI impI)
  assume m: "0 \<le> m \<and> m < M"
  with assms have "m / M < 1" by simp
  then have pos: "0 < 1 - m / M" by simp
  from pos have "1 - m / M \<noteq> 0" by linarith
  moreover from pos have "\<not> 1 / (1 - m / M) \<le> 0"
    by (simp only: not_le zero_less_divide_1_iff)
  ultimately have "1 - m / M \<noteq> 0" "\<not> 1 / (1 - m / M) \<le> 0" by blast+
  with assms show "radius_containing_mass R M m = Inr (R * ln (1 / (1 - m / M)))"
    by (simp add: radius_containing_mass_def np_divide_def np_log_def bind_err_def)
next
  assume m: "M \<le> m"
  with assms have "1 \<le> m / M" by simp
  then have "1 - m / M = 0 \<or> 1 / (1 - m / M) \<le> 0" by (auto simp add: divide_le_0_iff)
  with assms show "radius_containing_mass R M m = Inl NonFinite"
    by (auto simp add: radius_containing_mass_def np_divide_def np_log_def bind_err_def)
qed

text \<open>
  The theorem for a disk of radius 100 AU and 10 Jupiter masses: half of the mass lies
  within \<open>100 * ln 2\<close> AU, and the whole mass and more than it within no finite radius.
\<close>

theorem radius_containing_mass_formula_witness:
  "radius_containing_mass 100 10 5 = Inr (100 * ln 2)
   \<and> radius_containing_mass 100 10 10 = Inl NonFinite
   \<and> radius_containing_mass 100 10 12 = Inl NonFinite"
proof -
  have p: "(0 :: real) < 100" "(0 :: real) < 10" by simp_all
  have "(0 :: real) \<le> 5 \<and> (5 :: real) < 10" "(10 :: real) \<le> 10" "(10 :: real) \<le> 12" by simp_all
  with radius_containing_mass_formula [OF p, of 5] radius_containing_mass_formula [OF p, of 10]
    radius_containing_mass_formula [OF p, of 12]
  show ?thesis by simp
qed

section \<open>Properties of the mass-loss estimate\<close>

lemma grid_columns:
  "grid_stellar_masses grid = map row_stellar_mass grid"
  "grid_FUV grid = map row_FUV grid"
  "grid_disk_mass grid = map row_disk_mass grid"
  "grid_disk_radius grid = map row_disk_radius grid"
  by (simp_all add: grid_stellar_masses_def grid_FUV_def grid_disk_mass_def
      grid_disk_radius_def FRIED_grid_def)

lemma find_indices_in_range:
  assumes "column \<noteq> []"
  obtains i j where "find_indices column val = Inr (i, j)" "i < length column" "j < length column"
  using find_indices_nonempty [OF assms, of val] by blast

text \<open>On a non-empty grid the eight indices exist and are positions of the grid.\<close>

lemma indices_list_nonempty:
  assumes ne: "grid \<noteq> []"
  shows "\<exists>idx. indices_list grid xi = Inr idx \<and> length idx = 8
    \<and> (\<forall>i\<in>set idx. i < length grid)"
proof -
  obtain m f dm dr where xi: "xi = (m, f, dm, dr)" by (cases xi) auto
  from ne have c: "map row_stellar_mass grid \<noteq> []" "map row_FUV grid \<noteq> []"
    "map row_disk_mass grid \<noteq> []" "map row_disk_radius grid \<noteq> []" by simp_all
  from find_indices_in_range [OF c(1), of m] obtain i0 j0 where
    0: "find_indices (map row_stellar_mass grid) m = Inr (i0, j0)" "i0 < length grid"
      "j0 < length grid" by auto
  from find_indices_in_range [OF c(2), of f] obtain i1 j1 where
    1: "find_indices (map row_FUV grid) f = Inr (i1, j1)" "i1 < length grid"
      "j1 < length grid" by auto
  from find_indices_in_range [OF c(3), of dm] obtain i2 j2 where
    2: "find_indices (map row_disk_mass grid) dm = Inr (i2, j2)" "i2 < length grid"
      "j2 < length grid" by auto
  from find_indices_in_range [OF c(4), of dr] obtain i3 j3 where
    3: "find_indices (map row_disk_radius grid) dr = Inr (i3, j3)" "i3 < length grid"
      "j3 < length grid" by auto
  have "indices_list grid xi = Inr [i0, j0, i1, j1, i2, j2, i3, j3]"
    by (simp add: indices_list_def xi grid_columns bind_err_def 0(1) 1(1) 2(1) 3(1))
  with 0 1 2 3 show ?thesis by simp
qed

lemma indices_list_empty: "indices_list [] xi = Inl ValueError"
  by (cases xi)
    (simp add: indices_list_def grid_columns bind_err_def find_indices_def value_below_def
      except_ValueError_def)

lemma subgrid_rows_in_range:
  "\<forall>i\<in>set idx. i < length fried \<Longrightarrow> subgrid_rows fried idx = Inr (map (\<lambda>i. fried ! i) idx)"
  by (induction idx) (simp_all add: py_nth_def bind_err_def)

lemma py_index_member:
  "v \<in> set xs \<Longrightarrow>
     \<exists>k. py_index xs v = Inr k \<and> k < length xs \<and> xs ! k = v \<and> (\<forall>m<k. xs ! m \<noteq> v)"
proof (induction xs)
  case Nil
  then show ?case by simp
next
  case (Cons x xs)
  show ?case
  proof (cases "x = v")
    case True
    then show ?thesis by simp
  next
    case False
    with Cons.prems have "v \<in> set xs" by simp
    from Cons.IH [OF this] obtain k where k: "py_index xs v = Inr k" "k < length xs"
      "xs ! k = v" "\<forall>m<k. xs ! m \<noteq> v" by blast
    have "\<forall>m<Suc k. (x # xs) ! m \<noteq> v"
    proof (intro allI impI)
      fix m assume "m < Suc k"
      then show "(x # xs) ! m \<noteq> v" using False k(4) by (cases m) simp_all
    qed
    with False k show ?thesis by simp
  qed
qed

text \<open>
  What the loop over the indices leaves in the array: position \<open>k\<close> receives the grid's
  value when \<open>k\<close> is the first position of its index among those processed, and keeps
  its previous contents otherwise.
\<close>

lemma fill_Mdot_values_result:
  assumes "set xs \<subseteq> set idx" and "\<forall>i\<in>set idx. i < length g" and "length vals = length idx"
  shows "\<exists>r. fill_Mdot_values idx g xs vals = Inr r \<and> length r = length vals
    \<and> (\<forall>k<length vals. r ! k =
          (if idx ! k \<in> set xs \<and> (\<forall>m<k. idx ! m \<noteq> idx ! k) then g ! (idx ! k) else vals ! k))"
  using assms
proof (induction xs arbitrary: vals)
  case Nil
  then show ?case by simp
next
  case (Cons x xs)
  from Cons.prems have x: "x \<in> set idx" "x < length g" by auto
  from py_index_member [OF x(1)] obtain p where p: "py_index idx x = Inr p" "p < length idx"
    "idx ! p = x" "\<forall>m<p. idx ! m \<noteq> x" by blast
  let ?v = "vals[p := g ! x]"
  from Cons.prems have "set xs \<subseteq> set idx" "length ?v = length idx" by simp_all
  from Cons.IH [OF this(1) Cons.prems(2) this(2)] obtain r where
    r: "fill_Mdot_values idx g xs ?v = Inr r" "length r = length ?v"
      "\<forall>k<length ?v. r ! k =
         (if idx ! k \<in> set xs \<and> (\<forall>m<k. idx ! m \<noteq> idx ! k) then g ! (idx ! k) else ?v ! k)"
    by blast
  have step: "fill_Mdot_values idx g (x # xs) vals = Inr r"
    using x p Cons.prems(3) r(1) by (simp add: py_nth_def bind_err_def)
  have "r ! k =
      (if idx ! k \<in> set (x # xs) \<and> (\<forall>m<k. idx ! m \<noteq> idx ! k) then g ! (idx ! k) else vals ! k)"
    if k: "k < length vals" for k
  proof (cases "k = p")
    case True
    with r(3) k p Cons.prems(3) show ?thesis by simp
  next
    case False
    have "\<not> (idx ! k = x \<and> (\<forall>m<k. idx ! m \<noteq> idx ! k))"
    proof
      assume a: "idx ! k = x \<and> (\<forall>m<k. idx ! m \<noteq> idx ! k)"
      with p(3,4) False show False by (metis nat_neq_iff)
    qed
    with r(3) k False show ?thesis by auto
  qed
  with step r(2) show ?case by simp
qed

text \<open>
  The vector of values on a non-empty grid: the grid's value at the first position of
  each index, the uninitialised contents at a position whose index occurred before.
\<close>

lemma Mdot_values_nonempty:
  assumes "indices_list grid xi = Inr idx" and "length idx = 8"
    and "\<forall>i\<in>set idx. i < length grid"
  shows "\<exists>vals. Mdot_values grid uninit xi = Inr vals \<and> length vals = 8
    \<and> (\<forall>k<8. vals ! k =
          (if \<forall>m<k. idx ! m \<noteq> idx ! k then row_log10Mdot (grid ! (idx ! k)) else uninit k))"
proof -
  have "set idx \<subseteq> set idx" "\<forall>i\<in>set idx. i < length (grid_log10Mdot grid)"
    "length (map uninit [0..<8]) = length idx"
    using assms by (simp_all add: grid_log10Mdot_def)
  from fill_Mdot_values_result [OF this] obtain r where
    r: "fill_Mdot_values idx (grid_log10Mdot grid) idx (map uninit [0..<8]) = Inr r"
      "length r = 8"
      "\<forall>k<8. r ! k =
         (if idx ! k \<in> set idx \<and> (\<forall>m<k. idx ! m \<noteq> idx ! k) then grid_log10Mdot grid ! (idx ! k)
          else map uninit [0..<8] ! k)"
    by auto
  have "r ! k = (if \<forall>m<k. idx ! m \<noteq> idx ! k then row_log10Mdot (grid ! (idx ! k)) else uninit k)"
    if k: "k < 8" for k
  proof -
    from k assms have i: "idx ! k \<in> set idx" "idx ! k < length grid" by simp_all
    from k have u: "map uninit [0..<8] ! k = uninit k" by (simp del: upt_Suc)
    from r(3) k have "r ! k =
        (if idx ! k \<in> set idx \<and> (\<forall>m<k. idx ! m \<noteq> idx ! k) then grid_log10Mdot grid ! (idx ! k)
         else map uninit [0..<8] ! k)" by blast
    with i u show ?thesis by (auto simp add: grid_log10Mdot_def)
  qed
  with r(1,2) assms(1) show ?thesis by (simp add: Mdot_values_def bind_err_def)
qed

text \<open>The nearest-neighbour lookup returns the value at a nearest data point.\<close>

lemma nearest_indices_nonempty:
  assumes "points \<noteq> []"
  shows "nearest_indices points xi \<noteq> []"
proof -
  let ?D = "(\<lambda>p. euclid p xi) ` set points"
  from assms have "finite ?D" "?D \<noteq> {}" by simp_all
  from Min_in [OF this] obtain p where p: "p \<in> set points" "euclid p xi = Min ?D" by auto
  from p(1) obtain k where k: "k < length points" "points ! k = p" by (auto simp add: in_set_conv_nth)
  have "list_all (\<lambda>q. euclid (points ! k) xi \<le> euclid q xi) points"
    unfolding list_all_iff using k(2) p(2) by simp
  with k(1) have "k \<in> set (nearest_indices points xi)" by (simp add: nearest_indices_def)
  then show ?thesis by auto
qed

lemma griddata_nearest_result:
  assumes "tie_ok tie" and "points \<noteq> []" and "length vals = length points"
  shows "\<exists>k<length points. griddata_nearest tie points vals xi = Inr (vals ! k)
    \<and> (\<forall>m<length points. euclid (points ! k) xi \<le> euclid (points ! m) xi)"
proof -
  let ?k = "tie (nearest_indices points xi)"
  from assms(1) nearest_indices_nonempty [OF assms(2)]
  have "?k \<in> set (nearest_indices points xi)" by (simp add: tie_ok_def)
  then have k: "?k < length points" "\<forall>p\<in>set points. euclid (points ! ?k) xi \<le> euclid p xi"
    by (simp_all add: nearest_indices_def list_all_iff)
  then have "griddata_nearest tie points vals xi = Inr (vals ! ?k)"
    using assms(2,3) by (simp add: griddata_nearest_def py_nth_def)
  with k show ?thesis by auto
qed

text \<open>The eight indices are the results of the four calls of \<open>find_indices\<close>.\<close>

lemma indices_list_find_indices:
  assumes "indices_list grid xi = Inr idx"
  shows "find_indices (grid_stellar_masses grid) (fst xi) = Inr (idx ! 0, idx ! 1)
    \<and> find_indices (grid_FUV grid) (fst (snd xi)) = Inr (idx ! 2, idx ! 3)
    \<and> find_indices (grid_disk_mass grid) (fst (snd (snd xi))) = Inr (idx ! 4, idx ! 5)
    \<and> find_indices (grid_disk_radius grid) (snd (snd (snd xi))) = Inr (idx ! 6, idx ! 7)"
proof -
  obtain ms f dm dr where xi: "xi = (ms, f, dm, dr)" by (cases xi) auto
  from assms obtain i0 j0 where
    0: "find_indices (grid_stellar_masses grid) ms = Inr (i0, j0)"
    by (cases "find_indices (grid_stellar_masses grid) ms")
      (auto simp add: indices_list_def xi bind_err_def)
  from assms 0 obtain i1 j1 where 1: "find_indices (grid_FUV grid) f = Inr (i1, j1)"
    by (cases "find_indices (grid_FUV grid) f") (auto simp add: indices_list_def xi bind_err_def)
  from assms 0 1 obtain i2 j2 where 2: "find_indices (grid_disk_mass grid) dm = Inr (i2, j2)"
    by (cases "find_indices (grid_disk_mass grid) dm")
      (auto simp add: indices_list_def xi bind_err_def)
  from assms 0 1 2 obtain i3 j3 where
    3: "find_indices (grid_disk_radius grid) dr = Inr (i3, j3)"
    by (cases "find_indices (grid_disk_radius grid) dr")
      (auto simp add: indices_list_def xi bind_err_def)
  from assms 0 1 2 3 have "idx = [i0, j0, i1, j1, i2, j2, i3, j3]"
    by (simp add: indices_list_def xi bind_err_def)
  with 0 1 2 3 show ?thesis by (simp add: xi)
qed

lemma nearest_indices_iff:
  "k \<in> set (nearest_indices points xi) \<longleftrightarrow>
     k < length points \<and> (\<forall>m<length points. euclid (points ! k) xi \<le> euclid (points ! m) xi)"
  by (simp add: nearest_indices_def list_all_length)

text \<open>
  The nearest positions are listed in ascending order, so the first of them is the
  lowest; a position whose index occurred before is never the lowest nearest position,
  since the earlier position holds the same row.
\<close>

lemma hd_nearest_least:
  assumes "m \<in> set (nearest_indices points xi)"
  shows "hd (nearest_indices points xi) \<le> m"
proof -
  have s: "sorted (nearest_indices points xi)"
    by (simp add: nearest_indices_def sorted_wrt_filter)
  show ?thesis
  proof (cases "nearest_indices points xi")
    case Nil
    with assms show ?thesis by simp
  next
    case (Cons a rest)
    with s have "\<forall>y\<in>set rest. a \<le> y" by simp
    with assms Cons show ?thesis by auto
  qed
qed

lemma hd_nearest_first_of_index:
  assumes k: "hd (nearest_indices (map f idx) xi) = k" and ne: "idx \<noteq> []" and m: "m < k"
  shows "idx ! m \<noteq> idx ! k"
proof
  assume e: "idx ! m = idx ! k"
  let ?points = "map f idx"
  from ne have "?points \<noteq> []" by simp
  from nearest_indices_nonempty [OF this, of xi] k
  have "k \<in> set (nearest_indices ?points xi)" by (metis hd_in_set)
  then have kk: "k < length ?points"
    "\<forall>a<length ?points. euclid (?points ! k) xi \<le> euclid (?points ! a) xi"
    unfolding nearest_indices_iff by blast+
  from m kk(1) have ml: "m < length ?points" by simp
  with e kk(1) have "?points ! m = ?points ! k" by simp
  with kk(2) ml have "m \<in> set (nearest_indices ?points xi)"
    unfolding nearest_indices_iff by simp
  from hd_nearest_least [OF this] k m show False by simp
qed

text \<open>
  C3. On a non-empty grid the eight indices are those of the four calls of
  \<open>find_indices\<close>, and the sub-grid holds the grid's rows at these indices. With the
  rule that takes the first of the data points at the smallest distance, the estimate is
  \<open>grid_log10Mdot\<close> at the index of a position \<open>k\<close> whose sub-grid row is at the smallest
  Euclidean distance from the query point among the eight rows: one of the eight
  candidate values, and no combination of several of them. With any other admissible
  rule the estimate is still the single entry of the vector of values at such a
  position, and it is the grid's value there whenever the position is the first one of
  its index.
\<close>

theorem photoevap_Mdot_nearest_candidate:
  assumes "grid \<noteq> []"
  shows "\<exists>idx points vals k.
      indices_list grid xi = Inr idx \<and> length idx = 8 \<and> (\<forall>i\<in>set idx. i < length grid)
    \<and> find_indices (grid_stellar_masses grid) (fst xi) = Inr (idx ! 0, idx ! 1)
    \<and> find_indices (grid_FUV grid) (fst (snd xi)) = Inr (idx ! 2, idx ! 3)
    \<and> find_indices (grid_disk_mass grid) (fst (snd (snd xi))) = Inr (idx ! 4, idx ! 5)
    \<and> find_indices (grid_disk_radius grid) (snd (snd (snd xi))) = Inr (idx ! 6, idx ! 7)
    \<and> subgrid grid xi = Inr points \<and> length points = 8
    \<and> (\<forall>m<8. points ! m = FRIED_grid grid ! (idx ! m))
    \<and> Mdot_values grid uninit xi = Inr vals \<and> length vals = 8
    \<and> k < 8 \<and> (\<forall>m<8. euclid (points ! k) xi \<le> euclid (points ! m) xi)
    \<and> photoevap_Mdot hd grid uninit xi = Inr (grid_log10Mdot grid ! (idx ! k))
    \<and> (\<forall>tie. tie_ok tie \<longrightarrow>
          (\<exists>n<8. (\<forall>m<8. euclid (points ! n) xi \<le> euclid (points ! m) xi)
             \<and> photoevap_Mdot tie grid uninit xi = Inr (vals ! n)
             \<and> ((\<forall>m<n. idx ! m \<noteq> idx ! n) \<longrightarrow> vals ! n = grid_log10Mdot grid ! (idx ! n))))"
proof -
  from indices_list_nonempty [OF assms, of xi] obtain idx where
    idx: "indices_list grid xi = Inr idx" "length idx = 8" "\<forall>i\<in>set idx. i < length grid"
    by blast
  note fi = indices_list_find_indices [OF idx(1)]
  let ?points = "map (\<lambda>i. FRIED_grid grid ! i) idx"
  from idx have sub: "subgrid grid xi = Inr ?points"
    by (simp add: subgrid_def bind_err_def subgrid_rows_in_range FRIED_grid_def)
  have pts: "\<forall>m<8. ?points ! m = FRIED_grid grid ! (idx ! m)" using idx(2) by simp
  from Mdot_values_nonempty [OF idx, of uninit] obtain vals where
    vals: "Mdot_values grid uninit xi = Inr vals" "length vals = 8"
      "\<forall>k<8. vals ! k =
         (if \<forall>m<k. idx ! m \<noteq> idx ! k then row_log10Mdot (grid ! (idx ! k)) else uninit k)"
    by blast
  from idx(2) vals(2) have ne: "?points \<noteq> []" and lv: "length vals = length ?points" by auto
  have first: "vals ! n = grid_log10Mdot grid ! (idx ! n)"
    if "n < 8" "\<forall>m<n. idx ! m \<noteq> idx ! n" for n
  proof -
    from that(1) idx(2,3) have "idx ! n < length grid" by simp
    then have "grid_log10Mdot grid ! (idx ! n) = row_log10Mdot (grid ! (idx ! n))"
      by (simp add: grid_log10Mdot_def)
    moreover from vals(3) that(1) have "vals ! n =
        (if \<forall>m<n. idx ! m \<noteq> idx ! n then row_log10Mdot (grid ! (idx ! n)) else uninit n)"
      by blast
    ultimately show ?thesis using that(2) by simp
  qed
  have general: "\<exists>n<8. (\<forall>m<8. euclid (?points ! n) xi \<le> euclid (?points ! m) xi)
      \<and> photoevap_Mdot tie grid uninit xi = Inr (vals ! n)
      \<and> ((\<forall>m<n. idx ! m \<noteq> idx ! n) \<longrightarrow> vals ! n = grid_log10Mdot grid ! (idx ! n))"
    if t: "tie_ok tie" for tie
  proof -
    from griddata_nearest_result [OF t ne lv, of xi] idx(2) obtain n where
      n: "n < 8" "griddata_nearest tie ?points vals xi = Inr (vals ! n)"
        "\<forall>m<8. euclid (?points ! n) xi \<le> euclid (?points ! m) xi" by auto
    have "photoevap_Mdot tie grid uninit xi = Inr (vals ! n)"
      by (simp add: photoevap_Mdot_def sub vals(1) bind_err_def n(2))
    with n(1,3) first [OF n(1)] show ?thesis by blast
  qed
  let ?k = "hd (nearest_indices ?points xi)"
  have len: "length ?points = 8" using idx(2) by simp
  from nearest_indices_nonempty [OF ne, of xi]
  have "?k \<in> set (nearest_indices ?points xi)" by simp
  then have "?k < length ?points
      \<and> (\<forall>m<length ?points. euclid (?points ! ?k) xi \<le> euclid (?points ! m) xi)"
    unfolding nearest_indices_iff .
  then have k: "?k < 8" and near: "\<forall>m<8. euclid (?points ! ?k) xi \<le> euclid (?points ! m) xi"
    unfolding len by blast+
  from idx(2) have "idx \<noteq> []" by auto
  from hd_nearest_first_of_index [OF refl this]
  have "\<forall>m<?k. idx ! m \<noteq> idx ! ?k" by blast
  from first [OF k this] have v: "vals ! ?k = grid_log10Mdot grid ! (idx ! ?k)" .
  have "griddata_nearest hd ?points vals xi = Inr (vals ! ?k)"
    using ne lv k vals(2) by (simp add: griddata_nearest_def py_nth_def)
  with v have est: "photoevap_Mdot hd grid uninit xi = Inr (grid_log10Mdot grid ! (idx ! ?k))"
    by (simp add: photoevap_Mdot_def sub vals(1) bind_err_def)
  from idx fi sub len pts vals(1,2) k near est general show ?thesis
    apply -
    apply (rule exI [of _ idx], rule exI [of _ ?points], rule exI [of _ vals],
        rule exI [of _ ?k])
    apply (intro conjI allI impI)
                    apply (assumption | erule conjunct1 | blast)+
    done
qed

lemmas find_indices_eval =
  find_indices_def value_below_def value_above_def bind_err_def except_ValueError_def

lemma example_indices:
  "indices_list example_grid (5, 5, 5, 5) = Inr [0, 1, 2, 3, 4, 5, 6, 7]"
  by (simp add: indices_list_def grid_columns example_grid_def row_def find_indices_eval)

lemma example_permuted_indices:
  "indices_list example_grid_permuted (5, 5, 5, 5) = Inr [0, 1, 2, 3, 4, 5, 6, 7]"
  by (simp add: indices_list_def grid_columns example_grid_permuted_def row_def find_indices_eval)

lemma example_subgrid:
  "subgrid example_grid (5, 5, 5, 5) =
     Inr [(4.9, 5, 5, 5), (5.5, 5, 5, 5), (5, 3, 5, 5), (5, 7, 5, 5),
          (5, 5, 3, 5), (5, 5, 7, 5), (5, 5, 5, 3), (5, 5, 5, 7)]"
  by (simp add: subgrid_def example_indices bind_err_def py_nth_def FRIED_grid_def)
    (simp add: example_grid_def row_def)

lemma example_permuted_subgrid:
  "subgrid example_grid_permuted (5, 5, 5, 5) =
     Inr [(4.9, 100, 5, 5), (5.5, 5, 5, 5), (5, 3, 5, 5), (5, 7, 5, 5),
          (5, 5, 3, 5), (5, 5, 7, 5), (5, 5, 5, 3), (5, 5, 5, 7)]"
  by (simp add: subgrid_def example_permuted_indices bind_err_def py_nth_def FRIED_grid_def)
    (simp add: example_grid_permuted_def row_def)

lemma uninit_array: "map uninit [0..<8] =
    [uninit 0, uninit 1, uninit 2, uninit 3, uninit 4, uninit 5, uninit 6, uninit 7]"
  by (simp add: upt_rec eval_nat_numeral)

lemma example_values:
  "Mdot_values example_grid uninit (5, 5, 5, 5) = Inr [- 1, - 2, - 3, - 4, - 5, - 6, - 7, - 8]"
  by (simp add: Mdot_values_def example_indices bind_err_def py_nth_def grid_log10Mdot_def
      uninit_array del: upt_Suc)
    (simp add: example_grid_def row_def)

lemma example_permuted_values:
  "Mdot_values example_grid_permuted uninit (5, 5, 5, 5) =
     Inr [- 9, - 2, - 3, - 4, - 5, - 6, - 7, - 8]"
  by (simp add: Mdot_values_def example_permuted_indices bind_err_def py_nth_def
      grid_log10Mdot_def uninit_array del: upt_Suc)
    (simp add: example_grid_permuted_def row_def)

lemma example_nearest:
  "nearest_indices [(4.9, 5, 5, 5), (5.5, 5, 5, 5), (5, 3, 5, 5), (5, 7, 5, 5),
          (5, 5, 3, 5), (5, 5, 7, 5), (5, 5, 5, 3), (5, 5, 5, 7)] (5, 5, 5, 5) = [0]"
  by (simp add: nearest_indices_def euclid_def sq_dist_def power2_eq_square)

lemma example_permuted_nearest:
  "nearest_indices [(4.9, 100, 5, 5), (5.5, 5, 5, 5), (5, 3, 5, 5), (5, 7, 5, 5),
          (5, 5, 3, 5), (5, 5, 7, 5), (5, 5, 5, 3), (5, 5, 5, 7)] (5, 5, 5, 5) = [1]"
  by (simp add: nearest_indices_def euclid_def sq_dist_def power2_eq_square)

lemma example_estimate:
  assumes "tie_ok tie"
  shows "photoevap_Mdot tie example_grid uninit (5, 5, 5, 5) = Inr (- 1)"
proof -
  from assms have "tie [0] \<in> set [0]" unfolding tie_ok_def by blast
  then have t: "tie [0] = 0" by simp
  show ?thesis
    unfolding photoevap_Mdot_def example_subgrid example_values bind_err_def sum.case
      griddata_nearest_def example_nearest t
    by (simp add: py_nth_def)
qed

lemma example_permuted_estimate:
  assumes "tie_ok tie"
  shows "photoevap_Mdot tie example_grid_permuted uninit (5, 5, 5, 5) = Inr (- 2)"
proof -
  from assms have "tie [1] \<in> set [1]" unfolding tie_ok_def by blast
  then have t: "tie [1] = 1" by simp
  show ?thesis
    unfolding photoevap_Mdot_def example_permuted_subgrid example_permuted_values bind_err_def
      sum.case griddata_nearest_def example_permuted_nearest t
    by (simp add: py_nth_def)
qed

lemma tie_ok_hd: "tie_ok hd"
  by (simp add: tie_ok_def)

subsection \<open>The order of the rows\<close>

lemma count_list_one_unique:
  "count_list xs v = 1 \<Longrightarrow> p < length xs \<Longrightarrow> q < length xs \<Longrightarrow> xs ! p = v \<Longrightarrow> xs ! q = v
     \<Longrightarrow> p = q"
proof (induction xs arbitrary: p q)
  case Nil
  then show ?case by simp
next
  case (Cons x xs)
  show ?case
  proof (cases "x = v")
    case True
    with Cons.prems(1) have "count_list xs v = 0" by simp
    then have nin: "v \<notin> set xs" by (simp add: count_list_0_iff)
    have "p = 0"
    proof (rule ccontr)
      assume "p \<noteq> 0"
      then obtain p' where "p = Suc p'" by (cases p) auto
      with Cons.prems(2,4) nin show False by auto
    qed
    moreover have "q = 0"
    proof (rule ccontr)
      assume "q \<noteq> 0"
      then obtain q' where "q = Suc q'" by (cases q) auto
      with Cons.prems(3,5) nin show False by auto
    qed
    ultimately show ?thesis by simp
  next
    case False
    with Cons.prems(1) have c: "count_list xs v = 1" by simp
    from False Cons.prems(4) obtain p' where p: "p = Suc p'" by (cases p) auto
    from False Cons.prems(5) obtain q' where q: "q = Suc q'" by (cases q) auto
    from Cons.IH [OF c, of p' q'] Cons.prems p q show ?thesis by simp
  qed
qed

lemma value_below_mset:
  assumes "mset ys = mset xs"
  shows "value_below ys v = value_below xs v"
proof (cases "xs = []")
  case True
  with assms show ?thesis by simp
next
  case False
  with assms have "ys \<noteq> []" by auto
  moreover from assms have "set ys = set xs" by (rule mset_eq_setD)
  ultimately show ?thesis using False by (simp add: value_below_cases)
qed

lemma value_above_mset:
  assumes "mset ys = mset xs"
  shows "value_above ys v = value_above xs v"
proof (cases "xs = []")
  case True
  with assms show ?thesis by simp
next
  case False
  with assms have "ys \<noteq> []" by auto
  moreover from assms have "set ys = set xs" by (rule mset_eq_setD)
  ultimately show ?thesis using False by (simp add: value_above_cases)
qed

text \<open>
  A value that one row carries in the column \<open>c\<close> fixes the row: the position that holds
  it is the only position of its row, and every row with that value is this row.
\<close>

lemma carried_once_row:
  assumes "count_list (map c grid) b = 1" and "i < length grid" and "c (grid ! i) = b"
  shows "only_at grid i" and "\<forall>r\<in>set grid. c r = b \<longrightarrow> r = grid ! i"
proof -
  have u: "n = i" if "n < length grid" "c (grid ! n) = b" for n
    using count_list_one_unique [OF assms(1), of n i] that assms(2,3) by simp
  show "only_at grid i"
    unfolding only_at_def using assms(2,3) u by metis
  show "\<forall>r\<in>set grid. c r = b \<longrightarrow> r = grid ! i"
  proof (intro ballI impI)
    fix r assume "r \<in> set grid" "c r = b"
    then obtain n where "n < length grid" "grid ! n = r" by (auto simp add: in_set_conv_nth)
    with u \<open>c r = b\<close> show "r = grid ! i" by auto
  qed
qed

text \<open>The positions that \<open>find_indices\<close> returns for a column of the grid, with their values.\<close>

lemma find_indices_column:
  assumes "grid \<noteq> []"
  shows "\<exists>i j. find_indices (map c grid) v = Inr (i, j) \<and> i < length grid \<and> j < length grid
    \<and> value_below (map c grid) v = Inr (c (grid ! i))
    \<and> value_above (map c grid) v = Inr (c (grid ! j))"
proof -
  from assms have ne: "map c grid \<noteq> []" by simp
  from find_indices_nonempty [OF ne, of v] obtain i j where
    r: "find_indices (map c grid) v = Inr (i, j)" "i < length (map c grid)"
      "j < length (map c grid)"
      "map c grid ! i = (if \<exists>x\<in>set (map c grid). x < v
         then Max {x \<in> set (map c grid). x < v} else Min (set (map c grid)))"
      "map c grid ! j = (if \<exists>x\<in>set (map c grid). v < x
         then Min {x \<in> set (map c grid). v < x} else Max (set (map c grid)))"
    by blast
  from r(2,4) have "value_below (map c grid) v = Inr (c (grid ! i))"
    unfolding value_below_cases [OF ne] by simp
  moreover from r(3,5) have "value_above (map c grid) v = Inr (c (grid ! j))"
    unfolding value_above_cases [OF ne] by simp
  ultimately show ?thesis using r(1,2,3) by auto
qed

text \<open>
  One column of two grids with the same rows: where each bracketing value is carried by
  one row, \<open>find_indices\<close> selects the same two rows in both.
\<close>

lemma same_rows_column:
  assumes m: "mset grid' = mset grid" and ne: "grid \<noteq> []"
    and b: "carried_once (map c grid) (value_below (map c grid) v)"
    and a: "carried_once (map c grid) (value_above (map c grid) v)"
  shows "\<exists>i j i' j'. find_indices (map c grid) v = Inr (i, j)
    \<and> find_indices (map c grid') v = Inr (i', j')
    \<and> only_at grid i \<and> only_at grid' i' \<and> grid' ! i' = grid ! i
    \<and> only_at grid j \<and> only_at grid' j' \<and> grid' ! j' = grid ! j"
proof -
  from m ne have ne': "grid' \<noteq> []" by auto
  from m have mc: "mset (map c grid') = mset (map c grid)" by simp
  from m have s: "set grid' = set grid" by (rule mset_eq_setD)
  from find_indices_column [OF ne, of c v] obtain i j where
    r: "find_indices (map c grid) v = Inr (i, j)" "i < length grid" "j < length grid"
      "value_below (map c grid) v = Inr (c (grid ! i))"
      "value_above (map c grid) v = Inr (c (grid ! j))" by blast
  from find_indices_column [OF ne', of c v] obtain i' j' where
    r': "find_indices (map c grid') v = Inr (i', j')" "i' < length grid'" "j' < length grid'"
      "value_below (map c grid') v = Inr (c (grid' ! i'))"
      "value_above (map c grid') v = Inr (c (grid' ! j'))" by blast
  from r(4) r'(4) value_below_mset [OF mc, of v] have ei: "c (grid' ! i') = c (grid ! i)" by simp
  from r(5) r'(5) value_above_mset [OF mc, of v] have ej: "c (grid' ! j') = c (grid ! j)" by simp
  from b r(4) have ci: "count_list (map c grid) (c (grid ! i)) = 1" by (simp add: carried_once_def)
  from a r(5) have cj: "count_list (map c grid) (c (grid ! j)) = 1" by (simp add: carried_once_def)
  have cnt: "count_list (map c grid') w = count_list (map c grid) w" for w
    using mc by (metis count_mset)
  from ci ei cnt have ci': "count_list (map c grid') (c (grid' ! i')) = 1" by simp
  from cj ej cnt have cj': "count_list (map c grid') (c (grid' ! j')) = 1" by simp
  note i = carried_once_row [OF ci r(2) refl]
  note j = carried_once_row [OF cj r(3) refl]
  note i' = carried_once_row [OF ci' r'(2) refl]
  note j' = carried_once_row [OF cj' r'(3) refl]
  from r'(2) s have "grid' ! i' \<in> set grid" by (metis nth_mem)
  with i(2) ei have "grid' ! i' = grid ! i" by blast
  moreover from r'(3) s have "grid' ! j' \<in> set grid" by (metis nth_mem)
  with j(2) ej have "grid' ! j' = grid ! j" by blast
  ultimately show ?thesis using r(1) r'(1) i(1) j(1) i'(1) j'(1) by blast
qed

text \<open>The eight indices of two grids with the same rows select the same rows.\<close>

lemma same_rows_indices:
  assumes m: "mset grid' = mset grid" and ne: "grid \<noteq> []" and u: "brackets_unique grid xi"
  shows "\<exists>idx idx'. indices_list grid xi = Inr idx \<and> indices_list grid' xi = Inr idx'
    \<and> length idx = 8
    \<and> list_all2 (\<lambda>i i'. only_at grid i \<and> only_at grid' i' \<and> grid' ! i' = grid ! i) idx idx'"
proof -
  obtain ms f dm dr where xi: "xi = (ms, f, dm, dr)" by (cases xi) auto
  from u have c:
    "carried_once (map row_stellar_mass grid) (value_below (map row_stellar_mass grid) ms)"
    "carried_once (map row_stellar_mass grid) (value_above (map row_stellar_mass grid) ms)"
    "carried_once (map row_FUV grid) (value_below (map row_FUV grid) f)"
    "carried_once (map row_FUV grid) (value_above (map row_FUV grid) f)"
    "carried_once (map row_disk_mass grid) (value_below (map row_disk_mass grid) dm)"
    "carried_once (map row_disk_mass grid) (value_above (map row_disk_mass grid) dm)"
    "carried_once (map row_disk_radius grid) (value_below (map row_disk_radius grid) dr)"
    "carried_once (map row_disk_radius grid) (value_above (map row_disk_radius grid) dr)"
    by (simp_all add: brackets_unique_def xi grid_columns)
  from same_rows_column [OF m ne c(1,2)] obtain i0 j0 i0' j0' where
    0: "find_indices (map row_stellar_mass grid) ms = Inr (i0, j0)"
      "find_indices (map row_stellar_mass grid') ms = Inr (i0', j0')"
      "only_at grid i0 \<and> only_at grid' i0' \<and> grid' ! i0' = grid ! i0"
      "only_at grid j0 \<and> only_at grid' j0' \<and> grid' ! j0' = grid ! j0" by blast
  from same_rows_column [OF m ne c(3,4)] obtain i1 j1 i1' j1' where
    1: "find_indices (map row_FUV grid) f = Inr (i1, j1)"
      "find_indices (map row_FUV grid') f = Inr (i1', j1')"
      "only_at grid i1 \<and> only_at grid' i1' \<and> grid' ! i1' = grid ! i1"
      "only_at grid j1 \<and> only_at grid' j1' \<and> grid' ! j1' = grid ! j1" by blast
  from same_rows_column [OF m ne c(5,6)] obtain i2 j2 i2' j2' where
    2: "find_indices (map row_disk_mass grid) dm = Inr (i2, j2)"
      "find_indices (map row_disk_mass grid') dm = Inr (i2', j2')"
      "only_at grid i2 \<and> only_at grid' i2' \<and> grid' ! i2' = grid ! i2"
      "only_at grid j2 \<and> only_at grid' j2' \<and> grid' ! j2' = grid ! j2" by blast
  from same_rows_column [OF m ne c(7,8)] obtain i3 j3 i3' j3' where
    3: "find_indices (map row_disk_radius grid) dr = Inr (i3, j3)"
      "find_indices (map row_disk_radius grid') dr = Inr (i3', j3')"
      "only_at grid i3 \<and> only_at grid' i3' \<and> grid' ! i3' = grid ! i3"
      "only_at grid j3 \<and> only_at grid' j3' \<and> grid' ! j3' = grid ! j3" by blast
  have "indices_list grid xi = Inr [i0, j0, i1, j1, i2, j2, i3, j3]"
    by (simp add: indices_list_def xi grid_columns bind_err_def 0(1) 1(1) 2(1) 3(1))
  moreover have "indices_list grid' xi = Inr [i0', j0', i1', j1', i2', j2', i3', j3']"
    by (simp add: indices_list_def xi grid_columns bind_err_def 0(2) 1(2) 2(2) 3(2))
  ultimately show ?thesis using 0(3,4) 1(3,4) 2(3,4) 3(3,4) by simp
qed

text \<open>
  C5, counterexample. The two example grids hold the same nine rows in different orders.
  For the query point \<open>(5, 5, 5, 5)\<close> the first sub-grid contains the row
  \<open>(4.9, 5, 5, 5)\<close> and the estimate is its value \<open>-1\<close>; the second sub-grid contains
  the row \<open>(4.9, 100, 5, 5)\<close> instead, and the estimate is \<open>-2\<close>. All eight indices
  are different in both runs, and the nearest row is the only one at its distance.
\<close>

theorem row_order_changes_estimate:
  "mset example_grid_permuted = mset example_grid
   \<and> subgrid example_grid (5, 5, 5, 5) =
       Inr [(4.9, 5, 5, 5), (5.5, 5, 5, 5), (5, 3, 5, 5), (5, 7, 5, 5),
            (5, 5, 3, 5), (5, 5, 7, 5), (5, 5, 5, 3), (5, 5, 5, 7)]
   \<and> subgrid example_grid_permuted (5, 5, 5, 5) =
       Inr [(4.9, 100, 5, 5), (5.5, 5, 5, 5), (5, 3, 5, 5), (5, 7, 5, 5),
            (5, 5, 3, 5), (5, 5, 7, 5), (5, 5, 5, 3), (5, 5, 5, 7)]
   \<and> subgrid example_grid_permuted (5, 5, 5, 5) \<noteq> subgrid example_grid (5, 5, 5, 5)
   \<and> photoevap_Mdot hd example_grid (\<lambda>k. 0) (5, 5, 5, 5) = Inr (- 1)
   \<and> photoevap_Mdot hd example_grid_permuted (\<lambda>k. 0) (5, 5, 5, 5) = Inr (- 2)
   \<and> photoevap_Mdot hd example_grid_permuted (\<lambda>k. 0) (5, 5, 5, 5)
       \<noteq> photoevap_Mdot hd example_grid (\<lambda>k. 0) (5, 5, 5, 5)"
proof -
  have "mset example_grid_permuted = mset example_grid"
    by (simp add: example_grid_def example_grid_permuted_def)
  moreover have "subgrid example_grid_permuted (5, 5, 5, 5) \<noteq> subgrid example_grid (5, 5, 5, 5)"
    unfolding example_subgrid example_permuted_subgrid by simp
  moreover have "photoevap_Mdot hd example_grid_permuted (\<lambda>k. 0) (5, 5, 5, 5)
       \<noteq> photoevap_Mdot hd example_grid (\<lambda>k. 0) (5, 5, 5, 5)"
    unfolding example_estimate [OF tie_ok_hd] example_permuted_estimate [OF tie_ok_hd] by simp
  ultimately show ?thesis
    using example_subgrid example_permuted_subgrid example_estimate [OF tie_ok_hd]
      example_permuted_estimate [OF tie_ok_hd] by blast
qed

text \<open>
  C5, amended. Let two grids hold the same rows in any order, and let each of the eight
  bracketing values of the query point be carried by one row of its column. Then both
  grids give the same sub-grid (row by row), the same vector of values for the same
  contents of the uninitialised array, and the same estimate for the same tie rule.
\<close>

theorem row_order_invariance:
  assumes m: "mset grid' = mset grid" and u: "brackets_unique grid xi"
  shows "subgrid grid' xi = subgrid grid xi
    \<and> Mdot_values grid' uninit xi = Mdot_values grid uninit xi
    \<and> photoevap_Mdot tie grid' uninit xi = photoevap_Mdot tie grid uninit xi"
proof (cases "grid = []")
  case True
  with m show ?thesis by simp
next
  case False
  let ?R = "\<lambda>i i'. only_at grid i \<and> only_at grid' i' \<and> grid' ! i' = grid ! i"
  from same_rows_indices [OF m False u] obtain idx idx' where
    idx: "indices_list grid xi = Inr idx" "indices_list grid' xi = Inr idx'" "length idx = 8"
      "list_all2 ?R idx idx'" by blast
  from idx(3,4) have len': "length idx' = 8" by (simp add: list_all2_lengthD)
  have R: "?R (idx ! k) (idx' ! k)" if "k < 8" for k
    using list_all2_nthD [OF idx(4), of k] idx(3) that by simp
  have rng: "\<forall>i\<in>set idx. i < length grid" "\<forall>i\<in>set idx'. i < length grid'"
    using R idx(3) len' by (auto simp add: in_set_conv_nth only_at_def)
  have "list_all2 (\<lambda>i i'. FRIED_grid grid' ! i' = FRIED_grid grid ! i) idx idx'"
    using idx(4) by (rule list_all2_mono) (simp add: only_at_def FRIED_grid_def)
  then have "map (\<lambda>i. FRIED_grid grid' ! i) idx' = map (\<lambda>i. FRIED_grid grid ! i) idx"
    by (simp add: list_all2_conv_all_nth list_eq_iff_nth_eq)
  with rng idx(1,2) have 1: "subgrid grid' xi = subgrid grid xi"
    by (simp add: subgrid_def bind_err_def subgrid_rows_in_range FRIED_grid_def)
  from Mdot_values_nonempty [OF idx(1,3) rng(1), of uninit] obtain vals where
    vals: "Mdot_values grid uninit xi = Inr vals" "length vals = 8"
      "\<forall>k<8. vals ! k =
         (if \<forall>m<k. idx ! m \<noteq> idx ! k then row_log10Mdot (grid ! (idx ! k)) else uninit k)"
    by blast
  from Mdot_values_nonempty [OF idx(2) len' rng(2), of uninit] obtain vals' where
    vals': "Mdot_values grid' uninit xi = Inr vals'" "length vals' = 8"
      "\<forall>k<8. vals' ! k =
         (if \<forall>m<k. idx' ! m \<noteq> idx' ! k then row_log10Mdot (grid' ! (idx' ! k)) else uninit k)"
    by blast
  have same: "(idx' ! a = idx' ! k) = (idx ! a = idx ! k)" if "a < 8" "k < 8" for a k
  proof
    assume "idx' ! a = idx' ! k"
    with R [OF that(1)] R [OF that(2)] have "grid ! (idx ! a) = grid ! (idx ! k)" by simp
    with R [OF that(1)] R [OF that(2)] show "idx ! a = idx ! k" by (simp add: only_at_def)
  next
    assume "idx ! a = idx ! k"
    with R [OF that(1)] R [OF that(2)] have "grid' ! (idx' ! a) = grid' ! (idx' ! k)" by simp
    with R [OF that(1)] R [OF that(2)] show "idx' ! a = idx' ! k" by (simp add: only_at_def)
  qed
  have "vals' ! k = vals ! k" if k: "k < 8" for k
  proof -
    have "(\<forall>a<k. idx' ! a \<noteq> idx' ! k) = (\<forall>a<k. idx ! a \<noteq> idx ! k)"
      using same k by (meson less_trans)
    moreover from R [OF k] have "grid' ! (idx' ! k) = grid ! (idx ! k)" by simp
    moreover from vals(3) k have "vals ! k =
        (if \<forall>a<k. idx ! a \<noteq> idx ! k then row_log10Mdot (grid ! (idx ! k)) else uninit k)"
      by blast
    moreover from vals'(3) k have "vals' ! k =
        (if \<forall>a<k. idx' ! a \<noteq> idx' ! k then row_log10Mdot (grid' ! (idx' ! k)) else uninit k)"
      by blast
    ultimately show ?thesis by presburger
  qed
  with vals(2) vals'(2) have "vals' = vals" by (simp add: list_eq_iff_nth_eq)
  with vals(1) vals'(1) have 2: "Mdot_values grid' uninit xi = Mdot_values grid uninit xi"
    by simp
  show ?thesis unfolding photoevap_Mdot_def 1 2 by simp
qed

text \<open>
  The theorem at a grid of two rows and its reversal, for the query point
  \<open>(1.5, 50, 5, 50)\<close>.
\<close>

theorem row_order_invariance_witness:
  "mset two_row_grid_reversed = mset two_row_grid
   \<and> brackets_unique two_row_grid (1.5, 50, 5, 50)
   \<and> subgrid two_row_grid_reversed (1.5, 50, 5, 50) = subgrid two_row_grid (1.5, 50, 5, 50)
   \<and> Mdot_values two_row_grid_reversed (\<lambda>k. 0) (1.5, 50, 5, 50)
       = Mdot_values two_row_grid (\<lambda>k. 0) (1.5, 50, 5, 50)
   \<and> photoevap_Mdot hd two_row_grid_reversed (\<lambda>k. 0) (1.5, 50, 5, 50)
       = photoevap_Mdot hd two_row_grid (\<lambda>k. 0) (1.5, 50, 5, 50)"
proof -
  have m: "mset two_row_grid_reversed = mset two_row_grid"
    by (simp add: two_row_grid_def two_row_grid_reversed_def)
  have u: "brackets_unique two_row_grid (1.5, 50, 5, 50)"
    by (simp add: brackets_unique_def carried_once_def grid_columns two_row_grid_def row_def
        value_below_def value_above_def except_ValueError_def)
  from row_order_invariance [OF m u, of "\<lambda>k. 0" hd] m u show ?thesis by simp
qed

text \<open>
  The query point of the example cluster on the grid of two rows: the FUV flux 0 lies
  below the column, the disk mass above it, and the indices repeat.
\<close>

lemma example_query_indices:
  "indices_list two_row_grid example_query = Inr [0, 1, 0, 0, 1, 1, 0, 1]"
  by (simp add: indices_list_def grid_columns two_row_grid_def row_def example_query_def
      find_indices_eval)

lemma example_query_values:
  "Mdot_values two_row_grid uninit example_query =
     Inr [- 8, - 5, uninit 2, uninit 3, uninit 4, uninit 5, uninit 6, uninit 7]"
  by (simp add: Mdot_values_def example_query_indices bind_err_def py_nth_def
      grid_log10Mdot_def uninit_array del: upt_Suc)
    (simp add: two_row_grid_def row_def)

text \<open>
  C1. Where an index occurs at several of the eight positions, only its first position
  receives the grid's value: \<open>indices_list.index(x)\<close> is that first position every time,
  and the later positions keep the contents of the uninitialised array. On a grid with
  a single row all eight indices are 0 and the positions 1 to 7 are never written. On
  the grid of two rows, for the query point of the example cluster, the indices are
  \<open>[0, 1, 0, 0, 1, 1, 0, 1]\<close> and the positions 2 to 7 are never written.
\<close>

theorem Mdot_values_repeated_index:
  "indices_list [r] xi = Inr [0, 0, 0, 0, 0, 0, 0, 0]
   \<and> Mdot_values [r] uninit xi =
       Inr [row_log10Mdot r, uninit 1, uninit 2, uninit 3, uninit 4, uninit 5, uninit 6, uninit 7]
   \<and> indices_list two_row_grid example_query = Inr [0, 1, 0, 0, 1, 1, 0, 1]
   \<and> grid_log10Mdot two_row_grid = [- 8, - 5]
   \<and> Mdot_values two_row_grid uninit example_query =
       Inr [- 8, - 5, uninit 2, uninit 3, uninit 4, uninit 5, uninit 6, uninit 7]"
proof -
  have i: "indices_list [r] xi = Inr [0, 0, 0, 0, 0, 0, 0, 0]"
    by (cases xi) (simp add: indices_list_def grid_columns find_indices_eval)
  then have "Mdot_values [r] uninit xi =
       Inr [row_log10Mdot r, uninit 1, uninit 2, uninit 3, uninit 4, uninit 5, uninit 6, uninit 7]"
    by (simp add: Mdot_values_def bind_err_def py_nth_def grid_log10Mdot_def uninit_array
        del: upt_Suc)
  moreover have "grid_log10Mdot two_row_grid = [- 8, - 5]"
    by (simp add: grid_log10Mdot_def two_row_grid_def row_def)
  ultimately show ?thesis
    using i example_query_indices example_query_values [of uninit] by simp
qed

lemma example_query_subgrid: "subgrid two_row_grid example_query = Inr example_points"
  by (simp add: subgrid_def example_query_indices bind_err_def py_nth_def FRIED_grid_def
      example_points_def)
    (simp add: two_row_grid_def row_def)

lemma example_query_nearest: "nearest_indices example_points example_query = [0, 2, 3, 6]"
  by (simp add: nearest_indices_def example_points_def example_query_def euclid_def
      sq_dist_def power2_eq_square)

lemma example_query_estimate:
  "photoevap_Mdot hd two_row_grid uninit example_query = Inr (- 8)"
  unfolding photoevap_Mdot_def example_query_subgrid example_query_values bind_err_def sum.case
    griddata_nearest_def example_query_nearest
  by (simp add: py_nth_def example_points_def)

text \<open>
  The theorem of C3 at the grid of two rows and the query point of the example cluster,
  where six of the eight positions repeat an index: the estimate is \<open>-8\<close>, the grid's
  value of the first row, whatever the uninitialised array holds.
\<close>

theorem photoevap_Mdot_nearest_candidate_witness:
  "two_row_grid \<noteq> []
   \<and> grid_log10Mdot two_row_grid = [- 8, - 5]
   \<and> indices_list two_row_grid example_query = Inr [0, 1, 0, 0, 1, 1, 0, 1]
   \<and> (\<exists>k<8. photoevap_Mdot hd two_row_grid (\<lambda>k. 7) example_query
         = Inr ([- 8, - 5] ! ([0, 1, 0, 0, 1, 1, 0, 1] ! k)))
   \<and> photoevap_Mdot hd two_row_grid (\<lambda>k. 7) example_query = Inr (- 8)"
proof -
  have ne: "two_row_grid \<noteq> []" by (simp add: two_row_grid_def)
  have g: "grid_log10Mdot two_row_grid = [- 8, - 5]"
    by (simp add: grid_log10Mdot_def two_row_grid_def row_def)
  from photoevap_Mdot_nearest_candidate [OF ne, of example_query "\<lambda>k. 7"]
  obtain idx k where "indices_list two_row_grid example_query = Inr idx" "k < 8"
    "photoevap_Mdot hd two_row_grid (\<lambda>k. 7) example_query
       = Inr (grid_log10Mdot two_row_grid ! (idx ! k))"
    by blast
  with example_query_indices g
  have "\<exists>k<8. photoevap_Mdot hd two_row_grid (\<lambda>k. 7) example_query
         = Inr ([- 8, - 5] ! ([0, 1, 0, 0, 1, 1, 0, 1] ! k))"
    by auto
  with ne g example_query_indices example_query_estimate [of "\<lambda>k. 7"] show ?thesis by blast
qed

section \<open>Properties of the driver\<close>

lemma assign_disks_append:
  "assign_disks (xs @ ys) = assign_disks xs @ assign_disks ys"
  by (simp add: assign_disks_def)

lemma assign_disks_1_9:
  "stellar_mass s = 1.9 \<Longrightarrow> assign_disks [s] = [s]"
  by (simp add: assign_disks_def)

lemma small_loop_result:
  "small_loop loss smalls z acc = Inr acc' \<Longrightarrow>
     length acc' = length acc
     \<and> (\<forall>ss\<in>set smalls. \<exists>d. loss ss = Inr d)
     \<and> (smalls \<noteq> [] \<longrightarrow> z + length smalls \<le> length acc)
     \<and> (\<forall>k<length acc. acc' ! k =
           (if z \<le> k \<and> k < z + length smalls
            then acc ! k + increment (loss (smalls ! (k - z))) else acc ! k))"
proof (induction smalls arbitrary: z acc)
  case Nil
  then show ?case by simp
next
  case (Cons ss rest)
  from Cons.prems obtain d where d: "loss ss = Inr d"
    by (cases "loss ss") (simp_all add: bind_err_def)
  with Cons.prems have z: "z < length acc"
    by (cases "z < length acc") (simp_all add: bind_err_def)
  let ?acc = "acc[z := acc ! z + d]"
  from Cons.prems d z have run: "small_loop loss rest (Suc z) ?acc = Inr acc'"
    by (simp add: bind_err_def)
  from Cons.IH [OF run] have ih:
    "length acc' = length acc" "\<forall>ss\<in>set rest. \<exists>d. loss ss = Inr d"
    "rest \<noteq> [] \<longrightarrow> Suc z + length rest \<le> length acc"
    "\<forall>k<length acc. acc' ! k =
       (if Suc z \<le> k \<and> k < Suc z + length rest
        then ?acc ! k + increment (loss (rest ! (k - Suc z))) else ?acc ! k)"
    by simp_all
  have bound: "z + length (ss # rest) \<le> length acc"
    using ih(3) z by (cases rest) simp_all
  have "acc' ! k =
      (if z \<le> k \<and> k < z + length (ss # rest)
       then acc ! k + increment (loss ((ss # rest) ! (k - z))) else acc ! k)"
    if k: "k < length acc" for k
  proof (cases "k = z")
    case True
    with ih(4) k d show ?thesis by (simp add: increment_def)
  next
    case False
    show ?thesis
    proof (cases "z < k")
      case True
      then have "k - z = Suc (k - Suc z)" by simp
      with ih(4) k True show ?thesis by simp
    next
      case notless: False
      with False ih(4) k show ?thesis by simp
    qed
  qed
  with ih(1,2) d bound show ?case by simp
qed

lemma bright_loop_result:
  "bright_loop loss brights smalls acc = Inr acc' \<Longrightarrow>
     length acc' = length acc
     \<and> (\<forall>s\<in>set brights. \<forall>ss\<in>set smalls. \<exists>d. loss s ss = Inr d)
     \<and> (\<forall>k<length acc. acc' ! k =
           (if k < length smalls
            then acc ! k + (\<Sum>s\<leftarrow>brights. increment (loss s (smalls ! k))) else acc ! k))"
proof (induction brights arbitrary: acc)
  case Nil
  then show ?case by simp
next
  case (Cons s rest)
  from Cons.prems obtain acc1 where
    a1: "small_loop (loss s) smalls 0 acc = Inr acc1" and
    run: "bright_loop loss rest smalls acc1 = Inr acc'"
    by (cases "small_loop (loss s) smalls 0 acc") (simp_all add: bind_err_def)
  from small_loop_result [OF a1] have s1:
    "length acc1 = length acc" "\<forall>ss\<in>set smalls. \<exists>d. loss s ss = Inr d"
    "\<forall>k<length acc. acc1 ! k =
       (if k < length smalls then acc ! k + increment (loss s (smalls ! k)) else acc ! k)"
    by simp_all
  from Cons.IH [OF run] have ih:
    "length acc' = length acc1" "\<forall>s\<in>set rest. \<forall>ss\<in>set smalls. \<exists>d. loss s ss = Inr d"
    "\<forall>k<length acc1. acc' ! k =
       (if k < length smalls
        then acc1 ! k + (\<Sum>s\<leftarrow>rest. increment (loss s (smalls ! k))) else acc1 ! k)"
    by simp_all
  have "acc' ! k =
      (if k < length smalls
       then acc ! k + (\<Sum>s\<leftarrow>s # rest. increment (loss s (smalls ! k))) else acc ! k)"
    if k: "k < length acc" for k
    using ih(3) s1(1,3) k by simp
  with ih(1,2) s1(1,2) show ?case by simp
qed

text \<open>What a pair adds in a step of positive length is positive.\<close>

lemma total_photoevap_mass_loss_positive:
  assumes "total_photoevap_mass_loss u tie grid uninit dt s ss = Inr d" and "0 < dt"
  shows "\<exists>m. photoevap_Mdot_pair u tie grid uninit s ss = Inr m \<and> d = 10 powr m * dt \<and> 0 < d"
proof -
  from assms(1) obtain m where m: "photoevap_Mdot_pair u tie grid uninit s ss = Inr m"
    by (cases "photoevap_Mdot_pair u tie grid uninit s ss")
      (simp_all add: total_photoevap_mass_loss_def bind_err_def)
  with assms(1) have "d = 10 powr m * dt"
    by (simp add: total_photoevap_mass_loss_def bind_err_def)
  with m assms(2) show ?thesis by simp
qed

lemma increment_nonneg:
  assumes "0 < dt"
  shows "0 \<le> increment (total_photoevap_mass_loss u tie grid uninit dt s ss)"
proof (cases "total_photoevap_mass_loss u tie grid uninit dt s ss")
  case (Inl e)
  then show ?thesis by (simp add: increment_def)
next
  case (Inr d)
  from total_photoevap_mass_loss_positive [OF Inr assms] Inr show ?thesis
    by (auto simp add: increment_def)
qed

text \<open>Moving the stars changes no mass, so the populations keep their sizes.\<close>

lemma small_stars_move_stars:
  "length (small_stars (move_stars pos stars)) = length (small_stars stars)"
proof -
  have e: "map stellar_mass (move_stars pos stars) = map stellar_mass stars"
    unfolding move_stars_def
    by (rule nth_equalityI) (simp_all add: nth_enumerate_eq split: prod.splits)
  have f: "length (small_stars xs) = length (filter (\<lambda>m. m < 1.9) (map stellar_mass xs))"
    for xs
    by (simp add: small_stars_def filter_map comp_def)
  show ?thesis by (simp only: f e)
qed

text \<open>One iteration of the loop, from a state with a positive step before the end time.\<close>

lemma loop_body_result:
  assumes run: "loop_body u tie grid t_end env st = Inr st'"
    and t: "sim_time st < t_end" and dt: "0 < sim_dt st"
  shows "sim_dt st' = min (sim_dt st) (t_end - sim_time st)" and "0 < sim_dt st'"
    and "sim_time st' = sim_time st + sim_dt st'"
    and "sim_stars st' = move_stars (env_position env) (sim_stars st)"
    and "bright_loop (total_photoevap_mass_loss u tie grid (env_uninit env) (sim_dt st'))
           (bright_stars (sim_stars st)) (small_stars (sim_stars st))
           (time_total_mass_loss st) = Inr (time_total_mass_loss st')"
proof -
  let ?dt = "min (sim_dt st) (t_end - sim_time st)"
  from run obtain acc where
    acc: "bright_loop (total_photoevap_mass_loss u tie grid (env_uninit env) ?dt)
           (bright_stars (sim_stars st)) (small_stars (sim_stars st))
           (time_total_mass_loss st) = Inr acc"
    by (cases "bright_loop (total_photoevap_mass_loss u tie grid (env_uninit env) ?dt)
           (bright_stars (sim_stars st)) (small_stars (sim_stars st))
           (time_total_mass_loss st)")
      (simp_all add: loop_body_def Let_def bind_err_def)
  with run have st': "st' = \<lparr>sim_time = sim_time st + ?dt, sim_dt = ?dt,
      sim_stars = move_stars (env_position env) (sim_stars st), time_total_mass_loss = acc\<rparr>"
    by (simp add: loop_body_def Let_def bind_err_def)
  show "sim_dt st' = min (sim_dt st) (t_end - sim_time st)" using st' by simp
  show "0 < sim_dt st'" using st' t dt by simp
  show "sim_time st' = sim_time st + sim_dt st'" using st' by simp
  show "sim_stars st' = move_stars (env_position env) (sim_stars st)" using st' by simp
  show "bright_loop (total_photoevap_mass_loss u tie grid (env_uninit env) (sim_dt st'))
           (bright_stars (sim_stars st)) (small_stars (sim_stars st))
           (time_total_mass_loss st) = Inr (time_total_mass_loss st')"
    using st' acc by simp
qed

text \<open>
  The entries of the accumulator after an iteration: each small star's entry has grown
  by the sum of what the bright stars add to it, and none of these amounts is negative.
\<close>

lemma loop_body_accumulator:
  assumes run: "loop_body u tie grid t_end env st = Inr st'"
    and t: "sim_time st < t_end" and dt: "0 < sim_dt st"
    and len: "length (time_total_mass_loss st) = length (small_stars (sim_stars st))"
  shows "length (time_total_mass_loss st') = length (time_total_mass_loss st)"
    and "\<forall>z<length (time_total_mass_loss st).
           time_total_mass_loss st' ! z = time_total_mass_loss st ! z
             + (\<Sum>s\<leftarrow>bright_stars (sim_stars st).
                  increment (total_photoevap_mass_loss u tie grid (env_uninit env) (sim_dt st') s
                    (small_stars (sim_stars st) ! z)))"
    and "\<forall>z<length (time_total_mass_loss st).
           time_total_mass_loss st ! z \<le> time_total_mass_loss st' ! z"
proof -
  note b = loop_body_result [OF run t dt]
  note r = bright_loop_result [OF b(5)]
  from r show 1: "length (time_total_mass_loss st') = length (time_total_mass_loss st)" by simp
  from r len show 2: "\<forall>z<length (time_total_mass_loss st).
           time_total_mass_loss st' ! z = time_total_mass_loss st ! z
             + (\<Sum>s\<leftarrow>bright_stars (sim_stars st).
                  increment (total_photoevap_mass_loss u tie grid (env_uninit env) (sim_dt st') s
                    (small_stars (sim_stars st) ! z)))"
    by simp
  have "0 \<le> (\<Sum>s\<leftarrow>bright_stars (sim_stars st).
      increment (total_photoevap_mass_loss u tie grid (env_uninit env) (sim_dt st') s ss))" for ss
    by (rule sum_list_nonneg) (auto simp add: increment_nonneg [OF b(2)])
  with 2 show "\<forall>z<length (time_total_mass_loss st).
           time_total_mass_loss st ! z \<le> time_total_mass_loss st' ! z"
    by simp
qed

text \<open>The invariant of the loop, for a positive first step.\<close>

lemma reachable_invariant:
  assumes "0 < dt0" and "reachable u tie grid t_end stars0 dt0 st"
  shows "0 < sim_dt st
    \<and> length (time_total_mass_loss st) = length (small_stars (sim_stars st))
    \<and> (\<forall>a\<in>set (time_total_mass_loss st). 0 \<le> a)"
  using assms(2)
proof (induction rule: reachable.induct)
  case start
  with assms(1) show ?case by (simp add: initial_state_def Let_def)
next
  case (iterate st env st')
  then have inv: "0 < sim_dt st"
    "length (time_total_mass_loss st) = length (small_stars (sim_stars st))"
    "\<forall>a\<in>set (time_total_mass_loss st). 0 \<le> a" by simp_all
  note b = loop_body_result [OF iterate(3,2) inv(1)]
  note a = loop_body_accumulator [OF iterate(3,2) inv(1,2)]
  have "0 \<le> time_total_mass_loss st' ! z" if "z < length (time_total_mass_loss st')" for z
  proof -
    from that a(1) have z: "z < length (time_total_mass_loss st)" by simp
    with inv(3) have "0 \<le> time_total_mass_loss st ! z" by simp
    with a(3) z show ?thesis by fastforce
  qed
  then have "\<forall>a\<in>set (time_total_mass_loss st'). 0 \<le> a" by (auto simp add: in_set_conv_nth)
  with b(2,4) a(1) inv(2) show ?case by (simp add: small_stars_move_stars)
qed

text \<open>
  C8. A star of exactly 1.9 solar masses is in neither population. The assignment of the
  disks leaves it as it is, wherever it stands in the list of stars. The two populations
  are the same with the star and without it, so the accumulator has no entry for it, and
  an iteration of the loop computes the same accumulator with the star and without it:
  it takes no part in the loops over the bright and the small stars.
\<close>

theorem star_of_mass_1_9_in_no_population:
  assumes "stellar_mass s = 1.9"
  shows "s \<notin> set (bright_stars stars) \<and> s \<notin> set (small_stars stars)
    \<and> assign_disks (xs @ s # ys) = assign_disks xs @ s # assign_disks ys
    \<and> bright_stars (xs @ s # ys) = bright_stars (xs @ ys)
    \<and> small_stars (xs @ s # ys) = small_stars (xs @ ys)
    \<and> time_total_mass_loss (initial_state (xs @ s # ys) dt0)
        = time_total_mass_loss (initial_state (xs @ ys) dt0)
    \<and> (sim_stars st = xs @ s # ys \<longrightarrow>
         map_sum id time_total_mass_loss (loop_body u tie grid t_end env st)
           = map_sum id time_total_mass_loss
               (loop_body u tie grid t_end env (st\<lparr>sim_stars := xs @ ys\<rparr>)))"
proof -
  have 1: "s \<notin> set (bright_stars stars) \<and> s \<notin> set (small_stars stars)"
    using assms by (simp add: bright_stars_def small_stars_def)
  have 2: "assign_disks (xs @ s # ys) = assign_disks xs @ s # assign_disks ys"
    using assign_disks_append [of xs "s # ys"] assign_disks_append [of "[s]" ys]
      assign_disks_1_9 [OF assms] by simp
  have 3: "bright_stars (xs @ s # ys) = bright_stars (xs @ ys)"
    "small_stars (xs @ s # ys) = small_stars (xs @ ys)"
    using assms by (simp_all add: bright_stars_def small_stars_def)
  have 4: "small_stars (assign_disks xs @ s # assign_disks ys)
      = small_stars (assign_disks xs @ assign_disks ys)"
    using assms by (simp add: small_stars_def)
  have 5: "time_total_mass_loss (initial_state (xs @ s # ys) dt0)
      = time_total_mass_loss (initial_state (xs @ ys) dt0)"
    unfolding initial_state_def Let_def 2 assign_disks_append [of xs ys] 4 by simp
  have 6: "map_sum id time_total_mass_loss (loop_body u tie grid t_end env st)
      = map_sum id time_total_mass_loss (loop_body u tie grid t_end env (st\<lparr>sim_stars := xs @ ys\<rparr>))"
    if "sim_stars st = xs @ s # ys"
    using that 3 by (simp add: loop_body_def Let_def bind_err_def split: sum.splits)
  from 1 2 3 5 6 show ?thesis by blast
qed

text \<open>The theorem for the example star of 1.9 solar masses, among the two example stars.\<close>

theorem star_of_mass_1_9_in_no_population_witness:
  "stellar_mass example_star_1_9 = 1.9
   \<and> example_star_1_9 \<notin> set (bright_stars (example_stars @ [example_star_1_9]))
   \<and> example_star_1_9 \<notin> set (small_stars (example_stars @ [example_star_1_9]))
   \<and> assign_disks (example_stars @ [example_star_1_9])
       = assign_disks example_stars @ [example_star_1_9]
   \<and> length (time_total_mass_loss (initial_state (example_stars @ [example_star_1_9]) 2000)) = 1"
proof -
  have m: "stellar_mass example_star_1_9 = 1.9" by (simp add: example_star_1_9_def)
  have e: "time_total_mass_loss (initial_state (example_stars @ []) 2000) = [0]"
    by (simp add: initial_state_def Let_def assign_disks_def example_stars_def small_stars_def)
  have n: "assign_disks [] = ([] :: star list)" by (simp add: assign_disks_def)
  from star_of_mass_1_9_in_no_population
    [OF m, of "example_stars @ [example_star_1_9]" example_stars "[]" 2000]
  have "example_star_1_9 \<notin> set (bright_stars (example_stars @ [example_star_1_9]))"
    "example_star_1_9 \<notin> set (small_stars (example_stars @ [example_star_1_9]))"
    "assign_disks (example_stars @ [example_star_1_9])
       = assign_disks example_stars @ example_star_1_9 # assign_disks []"
    "time_total_mass_loss (initial_state (example_stars @ [example_star_1_9]) 2000)
       = time_total_mass_loss (initial_state (example_stars @ []) 2000)"
    by blast+
  with m e n show ?thesis by simp
qed

text \<open>
  C10. The accumulator starts with a zero for every small star. In every state the loop
  reaches from a positive first step, the step is positive and no entry of the
  accumulator is negative. An iteration from such a state takes a positive step \<open>dt\<close>;
  for every pair of a bright and a small star the estimate returns some \<open>m\<close> and the
  pair adds \<open>10 powr m * dt\<close>, which is positive; every entry of the accumulator grows
  by the sum of what the bright stars add to it, and is at least what it was.
\<close>

theorem accumulated_mass_loss_nondecreasing:
  assumes "0 < dt0" and "reachable u tie grid t_end stars0 dt0 st"
  shows "time_total_mass_loss (initial_state stars0 dt0)
        = replicate (length (small_stars (assign_disks stars0))) 0
    \<and> 0 < sim_dt st
    \<and> length (time_total_mass_loss st) = length (small_stars (sim_stars st))
    \<and> (\<forall>a\<in>set (time_total_mass_loss st). 0 \<le> a)
    \<and> (\<forall>env st'. sim_time st < t_end \<and> loop_body u tie grid t_end env st = Inr st' \<longrightarrow>
          0 < sim_dt st'
        \<and> length (time_total_mass_loss st') = length (time_total_mass_loss st)
        \<and> (\<forall>s\<in>set (bright_stars (sim_stars st)). \<forall>ss\<in>set (small_stars (sim_stars st)).
             \<exists>m. photoevap_Mdot_pair u tie grid (env_uninit env) s ss = Inr m
               \<and> total_photoevap_mass_loss u tie grid (env_uninit env) (sim_dt st') s ss
                   = Inr (10 powr m * sim_dt st')
               \<and> 0 < 10 powr m * sim_dt st')
        \<and> (\<forall>z<length (time_total_mass_loss st).
             time_total_mass_loss st' ! z = time_total_mass_loss st ! z
               + (\<Sum>s\<leftarrow>bright_stars (sim_stars st).
                    increment (total_photoevap_mass_loss u tie grid (env_uninit env) (sim_dt st') s
                      (small_stars (sim_stars st) ! z)))
             \<and> time_total_mass_loss st ! z \<le> time_total_mass_loss st' ! z))"
proof -
  have 0: "time_total_mass_loss (initial_state stars0 dt0)
      = replicate (length (small_stars (assign_disks stars0))) 0"
    by (simp add: initial_state_def Let_def)
  note inv = reachable_invariant [OF assms]
  have step: "0 < sim_dt st'
        \<and> length (time_total_mass_loss st') = length (time_total_mass_loss st)
        \<and> (\<forall>s\<in>set (bright_stars (sim_stars st)). \<forall>ss\<in>set (small_stars (sim_stars st)).
             \<exists>m. photoevap_Mdot_pair u tie grid (env_uninit env) s ss = Inr m
               \<and> total_photoevap_mass_loss u tie grid (env_uninit env) (sim_dt st') s ss
                   = Inr (10 powr m * sim_dt st')
               \<and> 0 < 10 powr m * sim_dt st')
        \<and> (\<forall>z<length (time_total_mass_loss st).
             time_total_mass_loss st' ! z = time_total_mass_loss st ! z
               + (\<Sum>s\<leftarrow>bright_stars (sim_stars st).
                    increment (total_photoevap_mass_loss u tie grid (env_uninit env) (sim_dt st') s
                      (small_stars (sim_stars st) ! z)))
             \<and> time_total_mass_loss st ! z \<le> time_total_mass_loss st' ! z)"
    if t: "sim_time st < t_end" and run: "loop_body u tie grid t_end env st = Inr st'"
    for env st'
  proof -
    from inv have dt: "0 < sim_dt st"
      and len: "length (time_total_mass_loss st) = length (small_stars (sim_stars st))"
      by simp_all
    note b = loop_body_result [OF run t dt]
    note a = loop_body_accumulator [OF run t dt len]
    from bright_loop_result [OF b(5)] have all:
      "\<forall>s\<in>set (bright_stars (sim_stars st)). \<forall>ss\<in>set (small_stars (sim_stars st)).
         \<exists>d. total_photoevap_mass_loss u tie grid (env_uninit env) (sim_dt st') s ss = Inr d"
      by simp
    have pairs: "\<forall>s\<in>set (bright_stars (sim_stars st)). \<forall>ss\<in>set (small_stars (sim_stars st)).
             \<exists>m. photoevap_Mdot_pair u tie grid (env_uninit env) s ss = Inr m
               \<and> total_photoevap_mass_loss u tie grid (env_uninit env) (sim_dt st') s ss
                   = Inr (10 powr m * sim_dt st')
               \<and> 0 < 10 powr m * sim_dt st'"
    proof (intro ballI)
      fix s ss
      assume "s \<in> set (bright_stars (sim_stars st))" "ss \<in> set (small_stars (sim_stars st))"
      with all obtain d where
        d: "total_photoevap_mass_loss u tie grid (env_uninit env) (sim_dt st') s ss = Inr d"
        by blast
      from total_photoevap_mass_loss_positive [OF d b(2)] d
      show "\<exists>m. photoevap_Mdot_pair u tie grid (env_uninit env) s ss = Inr m
               \<and> total_photoevap_mass_loss u tie grid (env_uninit env) (sim_dt st') s ss
                   = Inr (10 powr m * sim_dt st')
               \<and> 0 < 10 powr m * sim_dt st'"
        by auto
    qed
    from b(2) a(1) pairs a(2) a(3) show ?thesis by simp
  qed
  from 0 inv step show ?thesis by blast
qed

subsection \<open>One iteration on the example cluster\<close>

lemma example_assign_disks:
  "assign_disks example_stars =
     [example_bright, example_small]"
  by (simp add: assign_disks_def example_stars_def example_bright_def example_small_def)

lemma example_query_point:
  "query_point example_units
     example_bright example_small = Inr example_query"
  by (simp add: example_bright_def example_small_def query_point_def luminosity_fit_def
      distance_def radiation_at_distance_def np_divide_def get_attr_def bind_err_def
      example_units_def example_query_def)

lemma example_bright_small:
  "bright_stars (assign_disks example_stars) = [example_bright]"
  "small_stars (assign_disks example_stars) = [example_small]"
  unfolding example_assign_disks
  by (simp_all add: bright_stars_def small_stars_def example_bright_def example_small_def)

lemma example_pair_loss:
  "total_photoevap_mass_loss example_units hd two_row_grid (\<lambda>s ss k. 0) dt
     example_bright example_small = Inr (10 powr (- 8) * dt)"
  unfolding total_photoevap_mass_loss_def photoevap_Mdot_pair_def example_query_point
    bind_err_def sum.case example_query_estimate
  by simp

lemma example_iteration:
  "loop_body example_units hd two_row_grid 10000 example_environment
     (initial_state example_stars 2000) =
   Inr \<lparr>sim_time = 2000, sim_dt = 2000,
        sim_stars = move_stars (env_position example_environment) (assign_disks example_stars),
        time_total_mass_loss = [10 powr (- 8) * 2000]\<rparr>"
proof -
  have e: "env_uninit example_environment = (\<lambda>s ss k. 0)"
    by (simp add: example_environment_def)
  have i: "initial_state example_stars 2000 =
      \<lparr>sim_time = 0, sim_dt = 2000, sim_stars = assign_disks example_stars,
       time_total_mass_loss = [0]\<rparr>"
    by (simp add: initial_state_def Let_def example_bright_small)
  have d: "min (2000 :: real) (10000 - 0) = 2000" by simp
  show ?thesis
    unfolding loop_body_def i Let_def sim_state.simps d e example_bright_small
    by (simp add: bind_err_def example_pair_loss)
qed

text \<open>
  The theorem of C10 at the state after one iteration on the example cluster (first
  step 2000 years, end time 10000 years): the state is reachable, its step is positive
  and its accumulator holds the one entry \<open>10 powr (-8) * 2000\<close>, which is not negative.
\<close>

theorem accumulated_mass_loss_nondecreasing_witness:
  "(0 :: real) < 2000
   \<and> reachable example_units hd two_row_grid 10000 example_stars 2000
       \<lparr>sim_time = 2000, sim_dt = 2000,
        sim_stars = move_stars (env_position example_environment) (assign_disks example_stars),
        time_total_mass_loss = [10 powr (- 8) * 2000]\<rparr>
   \<and> time_total_mass_loss (initial_state example_stars 2000) = [0]
   \<and> (0 :: real) \<le> 10 powr (- 8) * 2000
   \<and> (0 :: real) + 10 powr (- 8) * 2000 = 10 powr (- 8) * 2000"
proof -
  let ?st = "\<lparr>sim_time = 2000, sim_dt = 2000,
        sim_stars = move_stars (env_position example_environment) (assign_disks example_stars),
        time_total_mass_loss = [10 powr (- 8) * 2000 :: real]\<rparr>"
  have p: "(0 :: real) < 2000" by simp
  have r0: "reachable example_units hd two_row_grid 10000 example_stars 2000
      (initial_state example_stars 2000)"
    by (rule reachable.start)
  have t: "sim_time (initial_state example_stars 2000) < 10000"
    by (simp add: initial_state_def Let_def)
  from reachable.iterate [OF r0 t example_iteration]
  have r1: "reachable example_units hd two_row_grid 10000 example_stars 2000 ?st" .
  from accumulated_mass_loss_nondecreasing [OF p r1]
  have "\<forall>a\<in>set (time_total_mass_loss ?st). 0 \<le> a" by blast
  then have "(0 :: real) \<le> 10 powr (- 8) * 2000" by simp
  moreover from accumulated_mass_loss_nondecreasing [OF p r0]
  have "time_total_mass_loss (initial_state example_stars 2000)
      = replicate (length (small_stars (assign_disks example_stars))) 0" by blast
  then have "time_total_mass_loss (initial_state example_stars 2000) = [0]"
    by (simp add: example_bright_small)
  ultimately show ?thesis using p r1 by simp
qed

end
